theory Spec2Isabelle
  imports Complex_Main "HOL-Library.AList"
begin

section \<open>Python values and dictionaries\<close>

text \<open>
  Events, frames and payloads are Python dictionaries of type \<open>Dict[str, Any]\<close>, decoded from
  JSON. A dictionary keeps insertion order, so it is an association list with distinct keys;
  \<open>d.get(k)\<close> is \<open>map_of d k\<close> with \<open>None\<close> for an absent key. Floats are idealised as
  reals (exact arithmetic, no overflow, no NaN), times are seconds as reals.
\<close>

datatype pyval =
    PNone
  | PBool bool
  | PInt int
  | PFloat real
  | PStr string
  | PList "pyval list"
  | PDict "(string \<times> pyval) list"

type_synonym pydict = "(string \<times> pyval) list"

datatype py_error = ValueError | TypeError | IndexError | KeyError | ZeroDivisionError | AttributeError

text \<open>\<open>d.get(k)\<close>: the value, or \<open>None\<close> when the key is absent.\<close>

definition dict_get :: "pydict \<Rightarrow> string \<Rightarrow> pyval" where
  "dict_get d k = (case map_of d k of None \<Rightarrow> PNone | Some v \<Rightarrow> v)"

text \<open>\<open>d.get(k, dflt)\<close>.\<close>

definition dict_get_default :: "pydict \<Rightarrow> string \<Rightarrow> pyval \<Rightarrow> pyval" where
  "dict_get_default d k dflt = (case map_of d k of None \<Rightarrow> dflt | Some v \<Rightarrow> v)"

text \<open>Truth value of an object, as \<open>if x\<close>, \<open>not x\<close> and \<open>x or y\<close> test it.\<close>

fun truthy :: "pyval \<Rightarrow> bool" where
  "truthy PNone = False"
| "truthy (PBool b) = b"
| "truthy (PInt i) = (i \<noteq> 0)"
| "truthy (PFloat r) = (r \<noteq> 0)"
| "truthy (PStr s) = (s \<noteq> [])"
| "truthy (PList xs) = (xs \<noteq> [])"
| "truthy (PDict d) = (d \<noteq> [])"

text \<open>\<open>x or y\<close>: the first operand when it is truthy, else the second.\<close>

definition py_or :: "pyval \<Rightarrow> pyval \<Rightarrow> pyval" where
  "py_or x y = (if truthy x then x else y)"

text \<open>
  \<open>float(x)\<close>. Parsing a string is Python's built-in; it is the parameter \<open>P\<close>, \<open>None\<close> where
  Python raises \<open>ValueError\<close>. \<open>float\<close> of \<open>None\<close>, a list or a dict raises \<open>TypeError\<close>. Every
  caller catches both, so the failure is \<open>None\<close> here.
\<close>

type_synonym float_parser = "string \<Rightarrow> real option"

fun py_float :: "float_parser \<Rightarrow> pyval \<Rightarrow> real option" where
  "py_float P PNone = None"
| "py_float P (PBool b) = Some (if b then 1 else 0)"
| "py_float P (PInt i) = Some (real_of_int i)"
| "py_float P (PFloat r) = Some r"
| "py_float P (PStr s) = P s"
| "py_float P (PList xs) = None"
| "py_float P (PDict d) = None"

text \<open>
  The loop shared by the extraction routines: the first field of \<open>fs\<close> that is in the
  dictionary, is not \<open>None\<close> and converts to a float; a field that fails to convert is skipped.
\<close>

fun first_float :: "float_parser \<Rightarrow> pydict \<Rightarrow> string list \<Rightarrow> real option" where
  "first_float P e [] = None"
| "first_float P e (f # fs) =
     (case map_of e f of
        None \<Rightarrow> first_float P e fs
      | Some v \<Rightarrow>
          (if v = PNone then first_float P e fs
           else (case py_float P v of
                   Some r \<Rightarrow> Some r
                 | None \<Rightarrow> first_float P e fs)))"

definition usd_fields :: "string list" where
  "usd_fields = [''usd_value'', ''usdValue'', ''value_usd'', ''valueUSD'',
                 ''total_value'', ''totalValue'', ''amount_usd'', ''amountUSD'']"

section \<open>Configuration (core/config.py)\<close>

record position_thresholds =
  notable_threshold :: real
  medium_threshold :: real
  large_threshold :: real
  whale_threshold :: real

definition default_thresholds :: position_thresholds where
  "default_thresholds =
     \<lparr>notable_threshold = 1000, medium_threshold = 10000,
      large_threshold = 100000, whale_threshold = 1000000\<rparr>"





section \<open>Position classifier (alerts/classifier.py)\<close>

datatype position_size = WHALE | LARGE | MEDIUM | NOTABLE | SMALL

definition extract_price :: "float_parser \<Rightarrow> pydict \<Rightarrow> real option" where
  "extract_price P e = first_float P e [''price'', ''limitPx'', ''limit_px'', ''execution_price'']"

definition extract_size :: "float_parser \<Rightarrow> pydict \<Rightarrow> real option" where
  "extract_size P e = first_float P e [''size'', ''sz'', ''quantity'', ''amount'', ''volume'']"

definition classifier_extract_usd_value :: "float_parser \<Rightarrow> pydict \<Rightarrow> real option" where
  "classifier_extract_usd_value P e =
     (case first_float P e usd_fields of
        Some r \<Rightarrow> Some r
      | None \<Rightarrow>
          (case extract_price P e of
             None \<Rightarrow> None
           | Some price \<Rightarrow>
               (case extract_size P e of
                  None \<Rightarrow> None
                | Some sz \<Rightarrow> Some (price * sz))))"

text \<open>
  \<open>classify_position\<close>: \<open>None\<close> when there is no positive USD value, else the first class of
  the cascade whose threshold the value reaches. The thresholds are read as they are.
\<close>

definition classify_position ::
  "float_parser \<Rightarrow> position_thresholds \<Rightarrow> pydict \<Rightarrow> position_size option" where
  "classify_position P th e =
     (case classifier_extract_usd_value P e of
        None \<Rightarrow> None
      | Some usd \<Rightarrow>
          (if usd \<le> 0 then None
           else if usd \<ge> whale_threshold th then Some WHALE
           else if usd \<ge> large_threshold th then Some LARGE
           else if usd \<ge> medium_threshold th then Some MEDIUM
           else if usd \<ge> notable_threshold th then Some NOTABLE
           else Some SMALL))"


section \<open>Strings: \<open>str\<close> and \<open>strip\<close>\<close>

definition digit_char :: "nat \<Rightarrow> char" where
  "digit_char d = ''0123456789'' ! d"

function nat_str :: "nat \<Rightarrow> string" where
  "nat_str n = (if n < 10 then [digit_char n] else nat_str (n div 10) @ [digit_char (n mod 10)])"
  by pat_completeness auto
termination
  by (relation "measure id") auto

declare nat_str.simps [simp del]

text \<open>\<open>str(i)\<close> of an integer: decimal digits, with a leading minus sign when negative.\<close>

definition int_str :: "int \<Rightarrow> string" where
  "int_str i = (if i < 0 then CHR ''-'' # nat_str (nat (- i)) else nat_str (nat i))"

text \<open>
  \<open>str(x)\<close>. The text of a float, a list or a dict is Python's \<open>repr\<close>; it is the parameter
  \<open>R\<close>.
\<close>

type_synonym py_repr = "pyval \<Rightarrow> string"

fun py_str :: "py_repr \<Rightarrow> pyval \<Rightarrow> string" where
  "py_str R PNone = ''None''"
| "py_str R (PBool b) = (if b then ''True'' else ''False'')"
| "py_str R (PInt i) = int_str i"
| "py_str R (PStr s) = s"
| "py_str R (PFloat r) = R (PFloat r)"
| "py_str R (PList xs) = R (PList xs)"
| "py_str R (PDict d) = R (PDict d)"



text \<open>\<open>sep.join(parts)\<close>.\<close>

fun join :: "string \<Rightarrow> string list \<Rightarrow> string" where
  "join sep [] = []"
| "join sep [x] = x"
| "join sep (x # y # ys) = x @ sep @ join sep (y # ys)"

section \<open>Event router (core/websocket\_client.py)\<close>












section \<open>Upstream client: the reconnect loop (core/websocket\_client.py)\<close>

record connection_stats =
  connected :: bool
  total_messages :: nat
  reconnect_count :: nat
  consecutive_failures :: nat

text \<open>
  \<open>connect\<close>: \<open>ok\<close> says whether \<open>websockets.connect\<close> returned or raised. A successful
  connect resets \<open>consecutive_failures\<close>; a failed one increments it.
\<close>

definition connect :: "bool \<Rightarrow> connection_stats \<Rightarrow> bool \<times> connection_stats" where
  "connect ok s =
     (if ok then
        (True, s\<lparr>connected := True, reconnect_count := reconnect_count s + 1,
                 consecutive_failures := 0\<rparr>)
      else
        (False, s\<lparr>connected := False,
                  consecutive_failures := consecutive_failures s + 1\<rparr>))"

text \<open>The progressive backoff at the end of an iteration of \<open>run\<close>, in seconds.\<close>

definition reconnect_delay :: "nat \<Rightarrow> nat" where
  "reconnect_delay cf = (if cf \<le> 3 then 2 else if cf \<le> 10 then 5 else min 30 cf)"

text \<open>
  What the environment does to one iteration of the loop of \<open>run\<close>: the connect fails; the
  connect succeeds and no subscription is made; or the session runs and ends.
  \<open>SessionEnds n pf err\<close> is a session that delivered \<open>n\<close> frames to \<open>handle_message\<close>, whose
  health monitor left \<open>pf\<close> consecutive failed probes behind (the monitor resets the counter
  on a good probe and increments it on a failed one), and that ended with a transport
  exception (\<open>err\<close>) or by a clean close of the stream.
\<close>

datatype attempt = ConnectFails | SubscribeFails | SessionEnds nat nat bool

text \<open>
  One iteration of the \<open>while\<close> loop of \<open>run\<close>: the statistics after it and the delay slept
  before the next iteration (\<open>None\<close> for the \<open>continue\<close> after failed subscriptions, which
  skips the sleep).
\<close>

fun run_iteration :: "connection_stats \<Rightarrow> attempt \<Rightarrow> connection_stats \<times> nat option" where
  "run_iteration s ConnectFails =
     (let s1 = snd (connect False s);
          s2 = s1\<lparr>connected := False\<rparr>
      in (s2, Some (reconnect_delay (consecutive_failures s2))))"
| "run_iteration s SubscribeFails =
     (let s1 = snd (connect True s);
          s2 = s1\<lparr>connected := False\<rparr>
      in (s2, None))"
| "run_iteration s (SessionEnds n pf err) =
     (let s1 = snd (connect True s);
          s2 = s1\<lparr>total_messages := total_messages s1 + n, consecutive_failures := pf\<rparr>;
          s3 = (if err then s2\<lparr>connected := False,
                                 consecutive_failures := consecutive_failures s2 + 1\<rparr>
                else s2);
          s4 = s3\<lparr>connected := False\<rparr>
      in (s4, Some (reconnect_delay (consecutive_failures s4))))"

text \<open>The loop over a list of attempts, with the delays slept in order.\<close>

fun run :: "connection_stats \<Rightarrow> attempt list \<Rightarrow> connection_stats \<times> nat list" where
  "run s [] = (s, [])"
| "run s (a # as) =
     (let (s1, d) = run_iteration s a;
          (s2, ds) = run s1 as
      in (s2, (case d of None \<Rightarrow> ds | Some x \<Rightarrow> x # ds)))"

section \<open>Rules engine (alerts/rules.py)\<close>

datatype alert_condition = POSITION_SIZE | VOLUME_THRESHOLD | PRICE_CHANGE | FREQUENCY | CUSTOM

datatype alert_severity = CRITICAL | HIGH | MEDIUM_SEVERITY | LOW | INFO

text \<open>
  An \<open>AlertRule\<close>. The description and the metadata are never read by the engine and are
  left out. A custom condition is a callable on the event; \<open>None\<close> is a call that raises.
\<close>

record alert_rule =
  name :: string
  condition :: alert_condition
  severity :: alert_severity
  enabled :: bool
  threshold :: "real option"
  time_window :: "int option"
  custom_condition :: "(pydict \<Rightarrow> bool option) option"

record rule_stat =
  triggered_count :: nat
  last_triggered :: "real option"
  total_events :: nat
  success_rate :: real

record rules_engine =
  rules :: "alert_rule list"
  rule_stats :: "(string \<times> rule_stat) list"
  event_history :: "pydict list"

definition max_history_size :: nat where
  "max_history_size = 1000"

definition position_rule :: "string \<Rightarrow> alert_severity \<Rightarrow> real \<Rightarrow> alert_rule" where
  "position_rule n sev t =
     \<lparr>name = n, condition = POSITION_SIZE, severity = sev, enabled = True,
      threshold = Some t, time_window = None, custom_condition = None\<rparr>"

definition DEFAULT_RULES :: "alert_rule list" where
  "DEFAULT_RULES =
     [position_rule ''whale_position'' CRITICAL 1000000,
      position_rule ''large_position'' HIGH 100000,
      position_rule ''medium_position'' MEDIUM_SEVERITY 10000,
      position_rule ''notable_position'' LOW 1000,
      \<lparr>name = ''high_frequency_trading'', condition = FREQUENCY, severity = MEDIUM_SEVERITY,
       enabled = True, threshold = Some 10, time_window = Some 60, custom_condition = None\<rparr>,
      \<lparr>name = ''unusual_volume'', condition = VOLUME_THRESHOLD, severity = HIGH,
       enabled = True, threshold = Some 50000, time_window = Some 300, custom_condition = None\<rparr>]"

definition fresh_rule_stat :: rule_stat where
  "fresh_rule_stat =
     \<lparr>triggered_count = 0, last_triggered = None, total_events = 0, success_rate = 0\<rparr>"

text \<open>\<open>RulesEngine.__init__\<close>: \<open>rules or DEFAULT_RULES\<close>, and fresh statistics per rule name.\<close>

definition init_rules_engine :: "alert_rule list \<Rightarrow> rules_engine" where
  "init_rules_engine rs =
     (let rs' = (if rs = [] then DEFAULT_RULES else rs)
      in \<lparr>rules = rs',
          rule_stats = foldl (\<lambda>al r. AList.update (name r) fresh_rule_stat al) [] rs',
          event_history = []\<rparr>)"

text \<open>
  \<open>RulesEngine._extract_usd_value\<close>: a USD field first, else price times size, the price
  and the size chosen by \<open>or\<close> (so a zero or empty value falls through to the next field).
\<close>

definition rules_extract_usd_value :: "float_parser \<Rightarrow> pydict \<Rightarrow> real option" where
  "rules_extract_usd_value P e =
     (case first_float P e usd_fields of
        Some r \<Rightarrow> Some r
      | None \<Rightarrow>
          (let price = py_or (py_or (dict_get e ''price'') (dict_get e ''limitPx''))
                         (dict_get e ''limit_px'');
               sz = py_or (py_or (dict_get e ''size'') (dict_get e ''sz''))
                      (dict_get e ''quantity'')
           in if price \<noteq> PNone \<and> sz \<noteq> PNone then
                (case py_float P price of
                   None \<Rightarrow> None
                 | Some p \<Rightarrow> (case py_float P sz of None \<Rightarrow> None | Some s \<Rightarrow> Some (p * s)))
              else None))"

definition evaluate_position_size :: "float_parser \<Rightarrow> alert_rule \<Rightarrow> pydict \<Rightarrow> bool" where
  "evaluate_position_size P rule e =
     (case threshold rule of
        None \<Rightarrow> False
      | Some t \<Rightarrow>
          (case rules_extract_usd_value P e of
             None \<Rightarrow> False
           | Some usd_value \<Rightarrow> usd_value \<ge> t))"

text \<open>\<open>x >= cutoff\<close> for a float cutoff: a number compares, anything else raises.\<close>

fun ge_float :: "pyval \<Rightarrow> real \<Rightarrow> py_error + bool" where
  "ge_float (PBool b) c = Inr ((if b then 1 else 0) \<ge> c)"
| "ge_float (PInt i) c = Inr (real_of_int i \<ge> c)"
| "ge_float (PFloat r) c = Inr (r \<ge> c)"
| "ge_float PNone c = Inl TypeError"
| "ge_float (PStr s) c = Inl TypeError"
| "ge_float (PList xs) c = Inl TypeError"
| "ge_float (PDict d) c = Inl TypeError"

text \<open>
  \<open>a == b\<close>: numbers (booleans included) compare by value, everything else structurally
  (containers are compared as they are stored).
\<close>

fun num_val :: "pyval \<Rightarrow> real option" where
  "num_val (PBool b) = Some (if b then 1 else 0)"
| "num_val (PInt i) = Some (real_of_int i)"
| "num_val (PFloat r) = Some r"
| "num_val PNone = None"
| "num_val (PStr s) = None"
| "num_val (PList xs) = None"
| "num_val (PDict d) = None"

definition py_eq :: "pyval \<Rightarrow> pyval \<Rightarrow> bool" where
  "py_eq a b =
     (case num_val a of
        Some x \<Rightarrow> (case num_val b of Some y \<Rightarrow> x = y | None \<Rightarrow> False)
      | None \<Rightarrow> (case num_val b of Some y \<Rightarrow> False | None \<Rightarrow> a = b))"

text \<open>
  The comprehension \<open>[e for e in self.event_history if keep(e) and
  e.get("timestamp", 0) >= cutoff]\<close>; a comparison that raises aborts it.
\<close>

fun recent_events_of :: "(pydict \<Rightarrow> bool) \<Rightarrow> real \<Rightarrow> pydict list \<Rightarrow> py_error + pydict list" where
  "recent_events_of keep cutoff [] = Inr []"
| "recent_events_of keep cutoff (e # es) =
     (if keep e then
        (case ge_float (dict_get_default e ''timestamp'' (PInt 0)) cutoff of
           Inl err \<Rightarrow> Inl err
         | Inr b \<Rightarrow>
             (case recent_events_of keep cutoff es of
                Inl err \<Rightarrow> Inl err
              | Inr r \<Rightarrow> Inr (if b then e # r else r)))
      else recent_events_of keep cutoff es)"

definition evaluate_volume_threshold ::
  "float_parser \<Rightarrow> rules_engine \<Rightarrow> real \<Rightarrow> alert_rule \<Rightarrow> pydict \<Rightarrow> py_error + bool" where
  "evaluate_volume_threshold P st now rule e =
     (case threshold rule of
        None \<Rightarrow> Inr False
      | Some t \<Rightarrow>
          (case time_window rule of
             None \<Rightarrow> Inr False
           | Some w \<Rightarrow>
               (case recent_events_of (\<lambda>_. True) (now - real_of_int w) (event_history st) of
                  Inl err \<Rightarrow> Inl err
                | Inr recent \<Rightarrow>
                    Inr (sum_list (map (\<lambda>x. case rules_extract_usd_value P x of
                                               None \<Rightarrow> 0 | Some v \<Rightarrow> v) recent) \<ge> t))))"

definition evaluate_frequency ::
  "rules_engine \<Rightarrow> real \<Rightarrow> alert_rule \<Rightarrow> pydict \<Rightarrow> py_error + bool" where
  "evaluate_frequency st now rule e =
     (case threshold rule of
        None \<Rightarrow> Inr False
      | Some t \<Rightarrow>
          (case time_window rule of
             None \<Rightarrow> Inr False
           | Some w \<Rightarrow>
               (let wallet = dict_get e ''wallet''
                in if \<not> truthy wallet then Inr False
                   else (case recent_events_of (\<lambda>x. py_eq (dict_get x ''wallet'') wallet)
                                (now - real_of_int w) (event_history st) of
                           Inl err \<Rightarrow> Inl err
                         | Inr recent \<Rightarrow> Inr (real (length recent) \<ge> t)))))"

definition evaluate_custom :: "alert_rule \<Rightarrow> pydict \<Rightarrow> bool" where
  "evaluate_custom rule e =
     (case custom_condition rule of
        None \<Rightarrow> False
      | Some f \<Rightarrow> (case f e of None \<Rightarrow> False | Some b \<Rightarrow> b))"

definition evaluate_rule ::
  "float_parser \<Rightarrow> rules_engine \<Rightarrow> real \<Rightarrow> alert_rule \<Rightarrow> pydict \<Rightarrow> py_error + bool" where
  "evaluate_rule P st now rule e =
     (case condition rule of
        POSITION_SIZE \<Rightarrow> Inr (evaluate_position_size P rule e)
      | VOLUME_THRESHOLD \<Rightarrow> evaluate_volume_threshold P st now rule e
      | PRICE_CHANGE \<Rightarrow> Inr False
      | FREQUENCY \<Rightarrow> evaluate_frequency st now rule e
      | CUSTOM \<Rightarrow> Inr (evaluate_custom rule e))"

text \<open>\<open>_add_to_history\<close>: the event gets a timestamp if it has none, and the history keeps
  its last \<open>max_history_size\<close> entries. The event is mutated in place, so it is returned.\<close>

definition add_to_history :: "real \<Rightarrow> pydict \<Rightarrow> rules_engine \<Rightarrow> pydict \<times> rules_engine" where
  "add_to_history now e st =
     (let e' = (if map_of e ''timestamp'' = None then e @ [(''timestamp'', PFloat now)] else e);
          h = event_history st @ [e'];
          h' = (if length h > max_history_size then drop (length h - max_history_size) h else h)
      in (e', st\<lparr>event_history := h'\<rparr>))"

text \<open>\<open>_update_rule_stats\<close>; the lookup of the rule's name raises \<open>KeyError\<close> when the
  statistics have no entry for it.\<close>

definition update_rule_stats ::
  "alert_rule \<Rightarrow> bool \<Rightarrow> real \<Rightarrow> rules_engine \<Rightarrow> py_error + rules_engine" where
  "update_rule_stats rule triggered now st =
     (case map_of (rule_stats st) (name rule) of
        None \<Rightarrow> Inl KeyError
      | Some stats \<Rightarrow>
          (let s1 = stats\<lparr>total_events := total_events stats + 1\<rparr>;
               s2 = (if triggered
                     then s1\<lparr>triggered_count := triggered_count s1 + 1,
                             last_triggered := Some now\<rparr>
                     else s1);
               s3 = (if total_events s2 > 0
                     then s2\<lparr>success_rate := real (triggered_count s2) / real (total_events s2)\<rparr>
                     else s2)
           in Inr (st\<lparr>rule_stats := AList.update (name rule) s3 (rule_stats st)\<rparr>)))"

text \<open>
  The loop of \<open>evaluate_event\<close> over the rules. An exception of the evaluation is caught and
  counted as a non-fire; a \<open>KeyError\<close> of the statistics is raised again by the handler's own
  update and leaves the loop.
\<close>

fun eval_rules ::
  "float_parser \<Rightarrow> real \<Rightarrow> pydict \<Rightarrow> alert_rule list \<Rightarrow> alert_rule list \<Rightarrow> rules_engine
   \<Rightarrow> (py_error + alert_rule list) \<times> rules_engine" where
  "eval_rules P now e [] triggered_rules st = (Inr triggered_rules, st)"
| "eval_rules P now e (rule # rs) triggered_rules st =
     (if \<not> enabled rule then eval_rules P now e rs triggered_rules st
      else (case evaluate_rule P st now rule e of
              Inr True \<Rightarrow>
                (case update_rule_stats rule True now st of
                   Inr st' \<Rightarrow> eval_rules P now e rs (triggered_rules @ [rule]) st'
                 | Inl err \<Rightarrow> (Inl err, st))
            | Inr False \<Rightarrow>
                (case update_rule_stats rule False now st of
                   Inr st' \<Rightarrow> eval_rules P now e rs triggered_rules st'
                 | Inl err \<Rightarrow> (Inl err, st))
            | Inl _ \<Rightarrow>
                (case update_rule_stats rule False now st of
                   Inr st' \<Rightarrow> eval_rules P now e rs triggered_rules st'
                 | Inl err \<Rightarrow> (Inl err, st))))"

text \<open>\<open>evaluate_event\<close>: the triggered rules (or the exception), the event as mutated, and
  the engine.\<close>

definition evaluate_event ::
  "float_parser \<Rightarrow> real \<Rightarrow> pydict \<Rightarrow> rules_engine
   \<Rightarrow> (py_error + alert_rule list) \<times> pydict \<times> rules_engine" where
  "evaluate_event P now e st =
     (let (e', st1) = add_to_history now e st;
          (res, st2) = eval_rules P now e' (rules st1) [] st1
      in (res, e', st2))"

section \<open>Alert engine (alerts/engine.py)\<close>

text \<open>
  \<open>_create_event_fingerprint\<close>: the first four fields are read with \<open>event.get\<close> and dropped
  from the join when they are \<open>None\<close>; the last three are read with the default \<open>""\<close> and
  always take part, as their \<open>str\<close>.
\<close>

definition key_fields :: "py_repr \<Rightarrow> pydict \<Rightarrow> pyval list" where
  "key_fields R e =
     [dict_get e ''type'', dict_get e ''wallet'', dict_get e ''coin'', dict_get e ''side'',
      PStr (py_str R (dict_get_default e ''usd_value'' (PStr ''''))),
      PStr (py_str R (dict_get_default e ''size'' (PStr ''''))),
      PStr (py_str R (dict_get_default e ''price'' (PStr '''')))]"

definition create_event_fingerprint :: "py_repr \<Rightarrow> pydict \<Rightarrow> string" where
  "create_event_fingerprint R e =
     join ''|'' (map (py_str R) (filter (\<lambda>field. field \<noteq> PNone) (key_fields R e)))"

definition dedup_window_seconds :: real where
  "dedup_window_seconds = 30"

text \<open>
  The engine: the deduplication table (fingerprint to last-seen time), the counters, and the
  states of the two injected collaborators that hold state, the rules engine and the
  position classifier.
\<close>

record ('r, 'c) alert_engine =
  recent_events :: "string \<rightharpoonup> real"
  events_processed :: nat
  alerts_triggered :: nat
  engine_notifications_sent :: nat
  errors :: nat
  rules_state :: 'r
  classifier_state :: 'c

text \<open>
  \<open>_is_duplicate_event\<close> at clock \<open>now\<close>: a fingerprint seen less than the window ago is a
  duplicate and changes nothing; otherwise the fingerprint is recorded and the entries not
  younger than twice the window are swept.
\<close>

definition is_duplicate_event ::
  "py_repr \<Rightarrow> ('r, 'c) alert_engine \<Rightarrow> real \<Rightarrow> pydict \<Rightarrow> bool \<times> ('r, 'c) alert_engine" where
  "is_duplicate_event R s now e =
     (let fingerprint = create_event_fingerprint R e;
          seen_recently = (case recent_events s fingerprint of
                             None \<Rightarrow> False
                           | Some last_seen \<Rightarrow> now - last_seen < dedup_window_seconds)
      in if seen_recently then (True, s)
         else (let tracked = (recent_events s)(fingerprint \<mapsto> now);
                   cutoff = now - dedup_window_seconds * 2
               in (False,
                   s\<lparr>recent_events :=
                       (\<lambda>fp. case tracked fp of
                                None \<Rightarrow> None
                              | Some ts \<Rightarrow> if ts > cutoff then Some ts else None)\<rparr>)))"

text \<open>
  The collaborators the engine is constructed with: the position classifier (optional: its
  \<open>analyze_position\<close>, and \<open>track_classification\<close> on its state, which raises on a wallet
  that cannot be a dictionary key), the rules engine's
  \<open>evaluate_event\<close> (which may raise and which mutates the event), and the construction of a
  notification by the formatter (\<open>None\<close> when it raises).
\<close>

record ('r, 'c, 'a, 'n) collaborators =
  analyze_position :: "(pydict \<Rightarrow> 'a option) option"
  track_classification :: "pyval \<Rightarrow> 'a \<Rightarrow> 'c \<Rightarrow> py_error + 'c"
  rules_evaluate_event :: "real \<Rightarrow> pydict \<Rightarrow> 'r \<Rightarrow> (py_error + alert_rule list) \<times> pydict \<times> 'r"
  create_notification :: "pydict \<Rightarrow> alert_rule \<Rightarrow> 'a option \<Rightarrow> 'n option"

text \<open>\<open>process_event\<close> at clock \<open>now\<close>: the notifications returned and the engine after.\<close>

definition process_event ::
  "('r, 'c, 'a, 'n) collaborators \<Rightarrow> py_repr \<Rightarrow> real \<Rightarrow> pydict \<Rightarrow> ('r, 'c) alert_engine
   \<Rightarrow> 'n list \<times> ('r, 'c) alert_engine" where
  "process_event D R now e s =
     (let s1 = s\<lparr>events_processed := events_processed s + 1\<rparr>;
          (dup, s2) = is_duplicate_event R s1 now e
      in if dup then ([], s2)
         else
           (let position_analysis =
                  (case analyze_position D of None \<Rightarrow> None | Some analyze \<Rightarrow> analyze e);
                tracked =
                  (case position_analysis of
                     None \<Rightarrow> Inr (classifier_state s2)
                   | Some a \<Rightarrow>
                       track_classification D
                         (dict_get_default e ''wallet'' (PStr ''unknown'')) a (classifier_state s2))
            in case tracked of
                 Inl err \<Rightarrow> ([], s2\<lparr>errors := errors s2 + 1\<rparr>)
               | Inr c' \<Rightarrow>
                   (let s3 = s2\<lparr>classifier_state := c'\<rparr>;
                        (res, e', r') = rules_evaluate_event D now e (rules_state s3);
                        s4 = s3\<lparr>rules_state := r'\<rparr>
                    in case res of
                         Inl err \<Rightarrow> ([], s4\<lparr>errors := errors s4 + 1\<rparr>)
                       | Inr triggered_rules \<Rightarrow>
                           (if triggered_rules = [] then ([], s4)
                            else
                              (let notifications =
                                     List.map_filter
                                       (\<lambda>rule. create_notification D e' rule position_analysis)
                                       triggered_rules
                               in (notifications,
                                   s4\<lparr>alerts_triggered :=
                                        alerts_triggered s4 + length triggered_rules,
                                      engine_notifications_sent :=
                                        engine_notifications_sent s4 + length notifications\<rparr>))))))"

text \<open>Processing a sequence of events, each with the clock at its ingestion.\<close>

definition process_events ::
  "('r, 'c, 'a, 'n) collaborators \<Rightarrow> py_repr \<Rightarrow> ('r, 'c) alert_engine \<Rightarrow> (pydict \<times> real) list
   \<Rightarrow> ('r, 'c) alert_engine" where
  "process_events D R s evs = foldl (\<lambda>st (e, t). snd (process_event D R t e st)) s evs"

definition init_alert_engine :: "'r \<Rightarrow> 'c \<Rightarrow> ('r, 'c) alert_engine" where
  "init_alert_engine r c =
     \<lparr>recent_events = Map.empty, events_processed = 0, alerts_triggered = 0,
      engine_notifications_sent = 0, errors = 0, rules_state = r, classifier_state = c\<rparr>"

subsection \<open>The classifier and the rules engine of the repository as collaborators\<close>

text \<open>
  A \<open>PositionAnalysis\<close> without the factor dictionary and the recommendation text, which
  are message formatting.
\<close>

record position_analysis =
  size_class :: position_size
  usd_value :: real
  confidence :: real

definition calculate_confidence ::
  "float_parser \<Rightarrow> position_thresholds \<Rightarrow> pydict \<Rightarrow> real \<Rightarrow> real" where
  "calculate_confidence P th e usd =
     (let c0 = 1;
          c1 = (if extract_price P e = None \<or> extract_size P e = None then c0 * 0.8 else c0);
          c2 = (if usd < 100 then c1 * 0.6 else c1);
          c3 = (if usd \<ge> whale_threshold th then min 1 (c2 * 1.2) else c2)
      in max 0 (min 1 c3))"

definition classifier_analyze_position ::
  "float_parser \<Rightarrow> position_thresholds \<Rightarrow> pydict \<Rightarrow> position_analysis option" where
  "classifier_analyze_position P th e =
     (case classifier_extract_usd_value P e of
        None \<Rightarrow> None
      | Some usd \<Rightarrow>
          (if usd \<le> 0 then None
           else (case classify_position P th e of
                   None \<Rightarrow> None
                 | Some c \<Rightarrow>
                     Some \<lparr>size_class = c, usd_value = usd,
                           confidence = calculate_confidence P th e usd\<rparr>)))"

text \<open>
  \<open>track_classification\<close>: the per-wallet history of classes, its last 100 entries kept.
  A list or a dict as the wallet is not hashable and raises.
\<close>

definition classifier_track_classification ::
  "pyval \<Rightarrow> position_analysis \<Rightarrow> (pyval \<times> position_size list) list
   \<Rightarrow> py_error + (pyval \<times> position_size list) list" where
  "classifier_track_classification wallet a history =
     (case wallet of
        PList _ \<Rightarrow> Inl TypeError
      | PDict _ \<Rightarrow> Inl TypeError
      | _ \<Rightarrow>
          (let h = (case map_of history wallet of None \<Rightarrow> [] | Some xs \<Rightarrow> xs) @ [size_class a];
               h' = (if length h > 100 then drop (length h - 100) h else h)
           in Inr (AList.update wallet h' history)))"

definition repository_collaborators ::
  "float_parser \<Rightarrow> position_thresholds \<Rightarrow> (pydict \<Rightarrow> alert_rule \<Rightarrow> position_analysis option \<Rightarrow> 'n option)
   \<Rightarrow> (rules_engine, (pyval \<times> position_size list) list, position_analysis, 'n) collaborators" where
  "repository_collaborators P th fmt =
     \<lparr>analyze_position = Some (classifier_analyze_position P th),
      track_classification = classifier_track_classification,
      rules_evaluate_event = evaluate_event P,
      create_notification = fmt\<rparr>"

subsection \<open>Well-typed events, for the fingerprint\<close>

definition fingerprint_fields :: "string list" where
  "fingerprint_fields = [''type'', ''wallet'', ''coin'', ''side'', ''usd_value'', ''size'', ''price'']"

text \<open>
  The normalized event of the specification's data model: kind, account, coin and side are
  strings or absent; the USD value, the size and the price are numbers or absent, the floats
  among them taken from a set \<open>F\<close>.
\<close>

definition text_field :: "pydict \<Rightarrow> string \<Rightarrow> bool" where
  "text_field e k = (case map_of e k of None \<Rightarrow> True | Some (PStr s) \<Rightarrow> True | Some _ \<Rightarrow> False)"

definition number_field :: "real set \<Rightarrow> pydict \<Rightarrow> string \<Rightarrow> bool" where
  "number_field F e k =
     (case map_of e k of
        None \<Rightarrow> True
      | Some (PInt i) \<Rightarrow> True
      | Some (PFloat r) \<Rightarrow> r \<in> F
      | Some _ \<Rightarrow> False)"

definition typed_event :: "real set \<Rightarrow> pydict \<Rightarrow> bool" where
  "typed_event F e =
     (text_field e ''type'' \<and> text_field e ''wallet'' \<and> text_field e ''coin''
      \<and> text_field e ''side'' \<and> number_field F e ''usd_value'' \<and> number_field F e ''size''
      \<and> number_field F e ''price'')"

text \<open>
  What is used of Python's \<open>repr\<close> of a float, on the floats of \<open>F\<close>: different floats have
  different texts, and the text of a float is neither empty nor the text of an integer.
\<close>

definition float_repr_ok :: "py_repr \<Rightarrow> real set \<Rightarrow> bool" where
  "float_repr_ok R F =
     (inj_on (\<lambda>r. R (PFloat r)) F \<and> (\<forall>r \<in> F. R (PFloat r) \<noteq> [] \<and> (\<forall>i. R (PFloat r) \<noteq> int_str i)))"

text \<open>Every part with the separator in front: the join of a non-empty list, one separator
  longer.\<close>

definition sepcat :: "string \<Rightarrow> string list \<Rightarrow> string" where
  "sepcat sep xs = concat (map (\<lambda>x. sep @ x) xs)"

text \<open>
  The parts a field contributes to the join: a text field its string, or nothing when it is
  absent; a number field always one part.
\<close>

definition text_part :: "pydict \<Rightarrow> string \<Rightarrow> string list" where
  "text_part e k = (case map_of e k of Some (PStr s) \<Rightarrow> [s] | _ \<Rightarrow> [])"

definition number_part :: "py_repr \<Rightarrow> pydict \<Rightarrow> string \<Rightarrow> string" where
  "number_part R e k = py_str R (dict_get_default e k (PStr ''''))"

section \<open>Rate limiter (utils/rate\_limiter.py)\<close>

datatype rate_limit_strategy = FIXED_WINDOW | SLIDING_WINDOW | TOKEN_BUCKET | LEAKY_BUCKET

record rate_limit_config =
  strategy :: rate_limit_strategy
  max_requests :: int
  window_seconds :: int
  burst_capacity :: int
  refill_rate :: real
  cooldown_seconds :: int

text \<open>The per-key entry of \<open>channel_stats\<close>.\<close>

record channel_stat =
  requests :: "real list"
  tokens :: real
  last_refill :: real

record 'n pending_event =
  pe_event :: 'n
  pe_timestamp :: real
  pe_priority :: int
  pe_retry_count :: nat
  pe_max_retries :: nat

text \<open>
  A \<open>RateLimiter\<close>: its configuration and its two dictionaries. (The instance fields
  \<open>requests\<close>, \<open>tokens\<close> and \<open>last_refill\<close> are only touched by two helpers that nothing
  calls.)
\<close>

record 'n rate_limiter =
  config :: rate_limit_config
  channel_stats :: "(string \<times> channel_stat) list"
  pending_events :: "(string \<times> 'n pending_event list) list"

definition new_rate_limiter :: "rate_limit_config \<Rightarrow> 'n rate_limiter" where
  "new_rate_limiter cfg = \<lparr>config = cfg, channel_stats = [], pending_events = []\<rparr>"

text \<open>\<open>_get_key\<close>: \<open>f"{channel}:{wallet[:8]}"\<close>.\<close>

definition get_key :: "string \<Rightarrow> string \<Rightarrow> string" where
  "get_key channel wallet = channel @ '':'' @ take 8 wallet"

text \<open>
  \<open>can_send_request\<close> at clock \<open>now\<close>: the pair \<open>(can_send, wait_time)\<close>, or the exception
  that the branch raises (the first element or the minimum of an empty list, a division by
  a zero refill rate), and the limiter with its statistics updated. No branch adds a time
  to \<open>requests\<close>.
\<close>

definition can_send_request ::
  "'n rate_limiter \<Rightarrow> real \<Rightarrow> string \<Rightarrow> string \<Rightarrow> (py_error + bool \<times> real) \<times> 'n rate_limiter" where
  "can_send_request rl now channel wallet =
     (let key = get_key channel wallet;
          cfg = config rl;
          stats = (case map_of (channel_stats rl) key of
                     None \<Rightarrow> \<lparr>requests = [], tokens = real_of_int (burst_capacity cfg),
                               last_refill = now\<rparr>
                   | Some st \<Rightarrow> st)
      in case strategy cfg of
           FIXED_WINDOW \<Rightarrow>
             (let cutoff = now - real_of_int (window_seconds cfg);
                  reqs = filter (\<lambda>req_time. req_time > cutoff) (requests stats);
                  rl' = rl\<lparr>channel_stats :=
                             AList.update key (stats\<lparr>requests := reqs\<rparr>) (channel_stats rl)\<rparr>
              in if int (length reqs) \<ge> max_requests cfg then
                   (case reqs of
                      [] \<Rightarrow> (Inl IndexError, rl')
                    | r # _ \<Rightarrow>
                        (Inr (False, max 0 (real_of_int (window_seconds cfg) - (now - r))), rl'))
                 else (Inr (True, 0), rl'))
         | SLIDING_WINDOW \<Rightarrow>
             (let cutoff = now - real_of_int (window_seconds cfg);
                  reqs = filter (\<lambda>req_time. req_time > cutoff) (requests stats);
                  rl' = rl\<lparr>channel_stats :=
                             AList.update key (stats\<lparr>requests := reqs\<rparr>) (channel_stats rl)\<rparr>
              in if int (length reqs) \<ge> max_requests cfg then
                   (case reqs of
                      [] \<Rightarrow> (Inl ValueError, rl')
                    | r # rs \<Rightarrow>
                        (let oldest_request = foldl min r rs
                         in (Inr (False, max 0 ((oldest_request + real_of_int (window_seconds cfg))
                                                 - now)), rl')))
                 else (Inr (True, 0), rl'))
         | TOKEN_BUCKET \<Rightarrow>
             (let elapsed = now - last_refill stats;
                  tokens_to_add = elapsed * refill_rate cfg;
                  refilled = min (real_of_int (burst_capacity cfg)) (tokens stats + tokens_to_add);
                  stats1 = stats\<lparr>tokens := refilled, last_refill := now\<rparr>
              in if refilled \<ge> 1 then
                   (Inr (True, 0),
                    rl\<lparr>channel_stats :=
                         AList.update key (stats1\<lparr>tokens := refilled - 1\<rparr>) (channel_stats rl)\<rparr>)
                 else
                   (if refill_rate cfg = 0 then Inl ZeroDivisionError
                    else Inr (False, 1 / refill_rate cfg),
                    rl\<lparr>channel_stats := AList.update key stats1 (channel_stats rl)\<rparr>))
         | LEAKY_BUCKET \<Rightarrow>
             (Inr (True, 0), rl\<lparr>channel_stats := AList.update key stats (channel_stats rl)\<rparr>))"

text \<open>
  \<open>add_pending_event\<close>: the event is appended to the key's list, which is then sorted by
  priority, highest first (the sort is stable).
\<close>

definition add_pending_event ::
  "'n rate_limiter \<Rightarrow> real \<Rightarrow> string \<Rightarrow> string \<Rightarrow> 'n \<Rightarrow> int \<Rightarrow> 'n rate_limiter" where
  "add_pending_event rl now channel wallet ev prio =
     (let key = get_key channel wallet;
          old = (case map_of (pending_events rl) key of None \<Rightarrow> [] | Some xs \<Rightarrow> xs);
          pending_event = \<lparr>pe_event = ev, pe_timestamp = now, pe_priority = prio,
                            pe_retry_count = 0, pe_max_retries = 3\<rparr>
      in rl\<lparr>pending_events :=
              AList.update key (sort_key (\<lambda>x. - pe_priority x) (old @ [pending_event]))
                (pending_events rl)\<rparr>)"


definition clear_pending_events :: "'n rate_limiter \<Rightarrow> string \<Rightarrow> string \<Rightarrow> nat \<times> 'n rate_limiter" where
  "clear_pending_events rl channel wallet =
     (let key = get_key channel wallet;
          count = (case map_of (pending_events rl) key of None \<Rightarrow> 0 | Some xs \<Rightarrow> length xs)
      in (count, rl\<lparr>pending_events := AList.delete key (pending_events rl)\<rparr>))"

text \<open>\<open>channel, wallet = key.split(":", 1)\<close>; without a colon the unpacking raises.\<close>

definition split_colon :: "string \<Rightarrow> (string \<times> string) option" where
  "split_colon key =
     (if CHR '':'' \<in> set key
      then Some (takeWhile (\<lambda>c. c \<noteq> CHR '':'') key, drop 1 (dropWhile (\<lambda>c. c \<noteq> CHR '':'') key))
      else None)"

text \<open>
  One pass of \<open>_flush_loop\<close> after its sleep. First the keys with pending events are scanned
  and those the limiter admits are collected; then the pending events of the collected keys
  are cleared. Nothing is sent. An exception ends the pass (it is logged) with what was
  changed so far.
\<close>

fun flush_scan ::
  "'n rate_limiter \<Rightarrow> real \<Rightarrow> (string \<times> 'n pending_event list) list
   \<Rightarrow> (string \<times> 'n pending_event list) list
   \<Rightarrow> (py_error + (string \<times> 'n pending_event list) list) \<times> 'n rate_limiter" where
  "flush_scan rl now [] keys_to_flush = (Inr keys_to_flush, rl)"
| "flush_scan rl now ((key, events) # rest) keys_to_flush =
     (if events = [] then flush_scan rl now rest keys_to_flush
      else (case split_colon key of
              None \<Rightarrow> (Inl ValueError, rl)
            | Some (channel, wallet) \<Rightarrow>
                (case can_send_request rl now channel wallet of
                   (Inl err, rl') \<Rightarrow> (Inl err, rl')
                 | (Inr (can_send, wait_time), rl') \<Rightarrow>
                     flush_scan rl' now rest
                       (if can_send \<and> wait_time \<le> 0 then keys_to_flush @ [(key, events)]
                        else keys_to_flush))))"

fun flush_clear ::
  "'n rate_limiter \<Rightarrow> (string \<times> 'n pending_event list) list \<Rightarrow> 'n rate_limiter" where
  "flush_clear rl [] = rl"
| "flush_clear rl ((key, events) # rest) =
     (case split_colon key of
        None \<Rightarrow> rl
      | Some (channel, wallet) \<Rightarrow> flush_clear (snd (clear_pending_events rl channel wallet)) rest)"

definition flush_iteration :: "'n rate_limiter \<Rightarrow> real \<Rightarrow> 'n rate_limiter" where
  "flush_iteration rl now =
     (case flush_scan rl now (pending_events rl) [] of
        (Inl err, rl') \<Rightarrow> rl'
      | (Inr keys_to_flush, rl') \<Rightarrow> flush_clear rl' keys_to_flush)"

text \<open>\<open>DEFAULT_RATE_LIMITS\<close> and the module's limiters, one per channel.\<close>

definition DEFAULT_RATE_LIMITS :: "(string \<times> rate_limit_config) list" where
  "DEFAULT_RATE_LIMITS =
     [(''discord'', \<lparr>strategy = SLIDING_WINDOW, max_requests = 10, window_seconds = 60,
                     burst_capacity = 5, refill_rate = 1, cooldown_seconds = 45\<rparr>),
      (''telegram'', \<lparr>strategy = SLIDING_WINDOW, max_requests = 20, window_seconds = 60,
                      burst_capacity = 5, refill_rate = 1, cooldown_seconds = 30\<rparr>),
      (''email'', \<lparr>strategy = TOKEN_BUCKET, max_requests = 10, window_seconds = 60,
                   burst_capacity = 5, refill_rate = 1 / 10, cooldown_seconds = 60\<rparr>),
      (''webhook'', \<lparr>strategy = SLIDING_WINDOW, max_requests = 30, window_seconds = 60,
                     burst_capacity = 5, refill_rate = 1, cooldown_seconds = 15\<rparr>)]"

definition default_rate_limiters :: "(string \<times> 'n rate_limiter) list" where
  "default_rate_limiters = map (\<lambda>(channel, cfg). (channel, new_rate_limiter cfg)) DEFAULT_RATE_LIMITS"

section \<open>Notification dispatcher (notifications/dispatcher.py)\<close>

text \<open>
  A notification as the dispatcher reads it: the wallet of its context (\<open>None\<close> when the
  notification has no context) and the pre-formatted content per channel.
\<close>

record 'c notification =
  rule_name :: string
  context_wallet :: "string option"
  formatted :: "(string \<times> 'c) list"

record 'c retry_item =
  ri_channel :: string
  ri_wallet :: string
  ri_content :: 'c
  ri_notification :: "'c notification"
  ri_retry_count :: nat
  ri_next_retry :: real
  ri_created_at :: real

text \<open>
  The dispatcher with what it works on: its own fields, the module-level dictionary of rate
  limiters, and the record of the calls made to the channel send primitives (channel and
  content, in order), which are external.
\<close>

record 'c dispatcher =
  channel_availability :: "(string \<times> bool) list"
  retry_queue :: "'c retry_item list"
  notifications_sent :: nat
  notifications_failed :: nat
  retries_attempted :: nat
  rate_limited :: nat
  rate_limiters :: "(string \<times> 'c notification rate_limiter) list"
  send_log :: "(string \<times> 'c) list"

definition max_retries :: nat where
  "max_retries = 3"

definition retry_delay_base :: real where
  "retry_delay_base = 5"

definition init_dispatcher :: "(string \<times> bool) list \<Rightarrow> 'c dispatcher" where
  "init_dispatcher availability =
     \<lparr>channel_availability = availability, retry_queue = [], notifications_sent = 0,
      notifications_failed = 0, retries_attempted = 0, rate_limited = 0,
      rate_limiters = default_rate_limiters, send_log = []\<rparr>"

text \<open>
  \<open>_send_notification_to_channel\<close>. The outcome of the \<open>k\<close>-th call of a send primitive is
  \<open>net k\<close> (an exception of the primitive is caught and is a \<open>False\<close>). An unknown channel
  calls nothing and fails.
\<close>

definition send_notification_to_channel ::
  "(nat \<Rightarrow> bool) \<Rightarrow> 'c dispatcher \<Rightarrow> string \<Rightarrow> 'c \<Rightarrow> bool \<times> 'c dispatcher" where
  "send_notification_to_channel net d channel content =
     (if channel \<in> set [''discord'', ''telegram'', ''email'', ''webhook'']
      then (net (length (send_log d)), d\<lparr>send_log := send_log d @ [(channel, content)]\<rparr>)
      else (False, d))"

definition add_to_retry_queue ::
  "'c dispatcher \<Rightarrow> real \<Rightarrow> string \<Rightarrow> string \<Rightarrow> 'c \<Rightarrow> 'c notification \<Rightarrow> 'c dispatcher" where
  "add_to_retry_queue d now channel wallet content notif =
     d\<lparr>retry_queue := retry_queue d @
          [\<lparr>ri_channel = channel, ri_wallet = wallet, ri_content = content,
            ri_notification = notif, ri_retry_count = 0,
            ri_next_retry = now + retry_delay_base, ri_created_at = now\<rparr>]\<rparr>"

text \<open>
  \<open>_send_to_channel\<close> at clock \<open>now\<close>: whether the notification was sent, and the dispatcher
  after. A limiter that denies defers the notification to its pending list; an exception of
  the limiter counts as a failed send.
\<close>

definition send_and_record ::
  "(nat \<Rightarrow> bool) \<Rightarrow> 'c dispatcher \<Rightarrow> real \<Rightarrow> string \<Rightarrow> string \<Rightarrow> 'c \<Rightarrow> 'c notification
   \<Rightarrow> bool \<times> 'c dispatcher" where
  "send_and_record net d now channel wallet content notif =
     (let (success, d1) = send_notification_to_channel net d channel content
      in if success then (True, d1\<lparr>notifications_sent := notifications_sent d1 + 1\<rparr>)
         else (False,
               add_to_retry_queue (d1\<lparr>notifications_failed := notifications_failed d1 + 1\<rparr>)
                 now channel wallet content notif))"

definition send_to_channel ::
  "(nat \<Rightarrow> bool) \<Rightarrow> 'c dispatcher \<Rightarrow> real \<Rightarrow> string \<Rightarrow> string \<Rightarrow> 'c \<Rightarrow> 'c notification
   \<Rightarrow> bool \<times> 'c dispatcher" where
  "send_to_channel net d now channel wallet content notif =
     (case map_of (rate_limiters d) channel of
        None \<Rightarrow> send_and_record net d now channel wallet content notif
      | Some rate_limiter \<Rightarrow>
          (case can_send_request rate_limiter now channel wallet of
             (Inl err, rl') \<Rightarrow>
               (let d1 = d\<lparr>rate_limiters := AList.update channel rl' (rate_limiters d)\<rparr>
                in (False,
                    add_to_retry_queue (d1\<lparr>notifications_failed := notifications_failed d1 + 1\<rparr>)
                      now channel wallet content notif))
           | (Inr (can_send, wait_time), rl') \<Rightarrow>
               (if \<not> can_send then
                  (let rl'' = add_pending_event rl' now channel wallet notif 0;
                       d1 = d\<lparr>rate_limiters := AList.update channel rl'' (rate_limiters d)\<rparr>
                   in (False, d1\<lparr>rate_limited := rate_limited d1 + 1\<rparr>))
                else
                  send_and_record net
                    (d\<lparr>rate_limiters := AList.update channel rl' (rate_limiters d)\<rparr>)
                    now channel wallet content notif)))"

text \<open>\<open>dispatch_notification\<close>: one result per enabled channel that has formatted content.\<close>

fun dispatch_channels ::
  "(nat \<Rightarrow> bool) \<Rightarrow> 'c dispatcher \<Rightarrow> real \<Rightarrow> string \<Rightarrow> 'c notification \<Rightarrow> (string \<times> bool) list
   \<Rightarrow> (string \<times> bool) list \<times> 'c dispatcher" where
  "dispatch_channels net d now wallet notif [] = ([], d)"
| "dispatch_channels net d now wallet notif ((channel, is_enabled) # rest) =
     (if \<not> is_enabled then dispatch_channels net d now wallet notif rest
      else (case map_of (formatted notif) channel of
              None \<Rightarrow> dispatch_channels net d now wallet notif rest
            | Some content \<Rightarrow>
                (let (success, d1) = send_to_channel net d now channel wallet content notif;
                     (results, d2) = dispatch_channels net d1 now wallet notif rest
                 in ((channel, success) # results, d2))))"

definition dispatch_notification ::
  "(nat \<Rightarrow> bool) \<Rightarrow> 'c dispatcher \<Rightarrow> real \<Rightarrow> 'c notification
   \<Rightarrow> (string \<times> bool) list \<times> 'c dispatcher" where
  "dispatch_notification net d now notif =
     (case context_wallet notif of
        None \<Rightarrow> ([], d)
      | Some wallet \<Rightarrow> dispatch_channels net d now wallet notif (channel_availability d))"

text \<open>
  One pass of \<open>_process_retries\<close> after its sleep, at clock \<open>now\<close>: the items due are taken
  in queue order; each is removed, counted, rescheduled with the doubled delay and sent
  again; a failed one goes back to the queue unless its retries are used up.
\<close>

definition reschedule :: "real \<Rightarrow> 'c retry_item \<Rightarrow> 'c retry_item" where
  "reschedule now item =
     item\<lparr>ri_retry_count := ri_retry_count item + 1,
          ri_next_retry := now + retry_delay_base * 2 ^ (ri_retry_count item + 1)\<rparr>"

definition process_retry_item ::
  "(nat \<Rightarrow> bool) \<Rightarrow> real \<Rightarrow> 'c dispatcher \<Rightarrow> 'c retry_item \<Rightarrow> 'c dispatcher" where
  "process_retry_item net now d item =
     (let d1 = d\<lparr>retry_queue := remove1 item (retry_queue d),
                 retries_attempted := retries_attempted d + 1\<rparr>;
          item' = reschedule now item;
          (success, d2) = send_notification_to_channel net d1 (ri_channel item') (ri_content item')
      in if success then d2\<lparr>notifications_sent := notifications_sent d2 + 1\<rparr>
         else if ri_retry_count item' < max_retries
              then d2\<lparr>retry_queue := retry_queue d2 @ [item']\<rparr>
              else d2\<lparr>notifications_failed := notifications_failed d2 + 1\<rparr>)"

definition process_retries :: "(nat \<Rightarrow> bool) \<Rightarrow> real \<Rightarrow> 'c dispatcher \<Rightarrow> 'c dispatcher" where
  "process_retries net now d =
     foldl (process_retry_item net now) d
       (filter (\<lambda>item. ri_retry_count item < max_retries \<and> now \<ge> ri_next_retry item)
          (retry_queue d))"

text \<open>The flush pass of the limiter of one channel, inside the dispatcher's state.\<close>

definition flush_channel :: "string \<Rightarrow> real \<Rightarrow> 'c dispatcher \<Rightarrow> 'c dispatcher" where
  "flush_channel channel now d =
     (case map_of (rate_limiters d) channel of
        None \<Rightarrow> d
      | Some rl \<Rightarrow>
          d\<lparr>rate_limiters := AList.update channel (flush_iteration rl now) (rate_limiters d)\<rparr>)"

text \<open>What happens to the dispatcher over time, as a sequence of operations.\<close>

datatype 'c dispatcher_op =
    Dispatch real "'c notification"
  | RetryPass real
  | FlushPass string real

fun dispatcher_step :: "(nat \<Rightarrow> bool) \<Rightarrow> 'c dispatcher \<Rightarrow> 'c dispatcher_op \<Rightarrow> 'c dispatcher" where
  "dispatcher_step net d (Dispatch now notif) = snd (dispatch_notification net d now notif)"
| "dispatcher_step net d (RetryPass now) = process_retries net now d"
| "dispatcher_step net d (FlushPass channel now) = flush_channel channel now d"

definition dispatcher_run ::
  "(nat \<Rightarrow> bool) \<Rightarrow> 'c dispatcher \<Rightarrow> 'c dispatcher_op list \<Rightarrow> 'c dispatcher" where
  "dispatcher_run net d ops = foldl (dispatcher_step net) d ops"

text \<open>The bound on the retry counts of the queued tasks.\<close>

definition retry_bounded :: "'c dispatcher \<Rightarrow> bool" where
  "retry_bounded d = list_all (\<lambda>item. ri_retry_count item < max_retries) (retry_queue d)"

subsection \<open>The frame of the first scenario of the specification\<close>



section \<open>Classification and the order of the thresholds\<close>




section \<open>Reconnect loop\<close>

text \<open>
  C7 (counterexample). The reset of \<open>consecutive_failures\<close> does not follow the frames
  delivered: a session that delivered no frame and closed cleanly resets a counter that
  stood at 3, and a session that delivered one frame and ended with a transport error leaves
  the counter at 1. After such an error close followed by 4 failed connects the counter is
  5 and the delays are 2, 2, 2, 5, 5.
\<close>

theorem consecutive_failures_reset_counterexample:
  "consecutive_failures
     (fst (run_iteration
        \<lparr>connected = False, total_messages = 0, reconnect_count = 0, consecutive_failures = 3\<rparr>
        (SessionEnds 0 0 False))) = 0 \<and>
   consecutive_failures
     (fst (run_iteration
        \<lparr>connected = False, total_messages = 0, reconnect_count = 0, consecutive_failures = 0\<rparr>
        (SessionEnds 1 0 True))) = 1 \<and>
   (let r = run \<lparr>connected = False, total_messages = 0, reconnect_count = 0,
                  consecutive_failures = 0\<rparr>
              [SessionEnds 1 0 True, ConnectFails, ConnectFails, ConnectFails, ConnectFails]
    in consecutive_failures (fst r) = 5 \<and> snd r = [2, 2, 2, 5, 5])"
  by (simp add: connect_def reconnect_delay_def)

text \<open>
  C7 (amended). \<open>consecutive_failures\<close> is reset to 0 by every successful connect, whatever
  the number of frames the session then delivers; at the close of a session it is the number
  of failed health probes left by the monitor, plus one when the session ended with a
  transport error; a failed connect increments it. The delay before the next attempt is 2
  seconds when the counter is at most 3, 5 seconds when at most 10, else the minimum of 30
  and the counter. After a session that received one frame and closed cleanly, followed by 4
  failed connects, the counter is 4 and the delays are 2, 2, 2, 2, 5.
\<close>

theorem reconnect_backoff:
  "consecutive_failures (fst (run_iteration s (SessionEnds n pf err))) = pf + (if err then 1 else 0)
   \<and> snd (run_iteration s (SessionEnds n pf err)) =
       Some (reconnect_delay (pf + (if err then 1 else 0)))
   \<and> consecutive_failures (fst (run_iteration s ConnectFails)) = consecutive_failures s + 1
   \<and> snd (run_iteration s ConnectFails) = Some (reconnect_delay (consecutive_failures s + 1))
   \<and> reconnect_delay cf = (if cf \<le> 3 then 2 else if cf \<le> 10 then 5 else min 30 cf)
   \<and> consecutive_failures
         (fst (run s [SessionEnds 1 0 False, ConnectFails, ConnectFails, ConnectFails, ConnectFails])) = 4
   \<and> snd (run s [SessionEnds 1 0 False, ConnectFails, ConnectFails, ConnectFails, ConnectFails])
       = [2, 2, 2, 2, 5]"
  by (simp add: connect_def reconnect_delay_def Let_def)

section \<open>Event router\<close>











section \<open>Rules engine: the position-size condition\<close>


lemma map_add_single_other:
  "k \<noteq> k' \<Longrightarrow> ([k' \<mapsto> x] ++ m) k = m k"
  by (simp add: map_add_def split: option.splits)

lemma map_of_snoc_other:
  "k \<noteq> k' \<Longrightarrow> map_of (e @ [(k', x)]) k = map_of e k"
  by (simp add: map_add_single_other)









text \<open>
  The USD value the engine extracts, on the two shapes of an event that carries one: a numeric
  \<open>usd_value\<close> field is taken as it is, and without any USD field a non-zero numeric
  \<open>price\<close> and \<open>size\<close> give their product.
\<close>

lemma rules_extract_usd_value_direct:
  "map_of e ''usd_value'' = Some (PFloat v) \<Longrightarrow> rules_extract_usd_value P e = Some v"
  by (simp add: rules_extract_usd_value_def usd_fields_def)

lemma rules_extract_usd_value_product:
  assumes "first_float P e usd_fields = None"
    and "map_of e ''price'' = Some (PFloat p)" "p \<noteq> 0"
    and "map_of e ''size'' = Some (PFloat s)" "s \<noteq> 0"
  shows "rules_extract_usd_value P e = Some (p * s)"
  using assms by (simp add: rules_extract_usd_value_def dict_get_def py_or_def)

section \<open>Deduplication\<close>

lemma is_duplicate_event_counter:
  "fst (is_duplicate_event R (s\<lparr>events_processed := n\<rparr>) now e) = fst (is_duplicate_event R s now e)
   \<and> recent_events (snd (is_duplicate_event R (s\<lparr>events_processed := n\<rparr>) now e))
       = recent_events (snd (is_duplicate_event R s now e))"
  by (simp add: is_duplicate_event_def Let_def)

lemma is_duplicate_event_records:
  assumes "\<not> fst (is_duplicate_event R s now e)"
  shows "recent_events (snd (is_duplicate_event R s now e)) (create_event_fingerprint R e) = Some now"
  using assms
  by (simp add: is_duplicate_event_def Let_def dedup_window_seconds_def split: if_splits)

lemma is_duplicate_event_keeps:
  assumes "recent_events s fp = Some t1" and "now < t1 + 30"
  shows "recent_events (snd (is_duplicate_event R s now e)) fp = Some t1"
proof (cases "create_event_fingerprint R e = fp")
  case True
  with assms show ?thesis
    by (simp add: is_duplicate_event_def Let_def dedup_window_seconds_def)
next
  case False
  with assms show ?thesis
    by (simp add: is_duplicate_event_def Let_def dedup_window_seconds_def)
qed

lemma is_duplicate_event_detects:
  assumes "recent_events s (create_event_fingerprint R e) = Some t1" and "now < t1 + 30"
  shows "is_duplicate_event R s now e = (True, s)"
  using assms by (simp add: is_duplicate_event_def Let_def dedup_window_seconds_def)

lemma process_event_recent:
  "recent_events (snd (process_event D R now e s))
     = recent_events (snd (is_duplicate_event R s now e))"
proof -
  obtain d s2 where a: "is_duplicate_event R (s\<lparr>events_processed := events_processed s + 1\<rparr>) now e = (d, s2)"
    by (cases "is_duplicate_event R (s\<lparr>events_processed := events_processed s + 1\<rparr>) now e")
  have r: "recent_events s2 = recent_events (snd (is_duplicate_event R s now e))"
    using is_duplicate_event_counter [where R = R and s = s and n = "events_processed s + 1"
        and now = now and e = e] a by simp
  show ?thesis
    unfolding process_event_def Let_def a
    by (simp add: r split: prod.splits option.splits sum.splits)
qed

lemma process_events_keeps:
  assumes "recent_events s fp = Some t1" and "\<forall>(e, t) \<in> set evs. t < t1 + 30"
  shows "recent_events (process_events D R s evs) fp = Some t1"
  using assms
proof (induction evs arbitrary: s)
  case Nil
  then show ?case by (simp add: process_events_def)
next
  case (Cons x evs)
  obtain e t where x: "x = (e, t)" by (cases x)
  from Cons.prems x have t: "t < t1 + 30" by simp
  have "recent_events (snd (process_event D R t e s)) fp = Some t1"
    using is_duplicate_event_keeps [OF Cons.prems(1) t] by (simp add: process_event_recent)
  from Cons.IH [OF this] Cons.prems(2) x show ?case
    by (simp add: process_events_def)
qed

lemma process_event_duplicate:
  assumes "is_duplicate_event R s now e = (True, s)"
  shows "fst (process_event D R now e s) = []
         \<and> rules_state (snd (process_event D R now e s)) = rules_state s
         \<and> classifier_state (snd (process_event D R now e s)) = classifier_state s"
proof -
  have "is_duplicate_event R (s\<lparr>events_processed := events_processed s + 1\<rparr>) now e
          = (True, s\<lparr>events_processed := events_processed s + 1\<rparr>)"
    using assms by (auto simp: is_duplicate_event_def Let_def split: if_splits)
  then show ?thesis by (simp add: process_event_def)
qed

text \<open>
  C3. Let an event \<open>e1\<close> ingested at \<open>t1\<close> be passed on by the duplicate check (so it reaches
  the rules engine), let any events follow, and let \<open>e2\<close> with the same fingerprint be
  ingested at \<open>t2\<close>, every ingestion time after \<open>e1\<close> being less than \<open>t1 + 30\<close>. Then \<open>e2\<close> is
  detected as a duplicate: \<open>process_event\<close> returns the empty list of notifications and
  leaves the state of the rules engine and of the classifier as they were, whatever the
  injected rules engine does when it is called. So of two such events only one is evaluated.
\<close>

theorem duplicate_within_window_not_evaluated:
  assumes first: "\<not> fst (is_duplicate_event R s t1 e1)"
    and same: "create_event_fingerprint R e2 = create_event_fingerprint R e1"
    and between: "\<forall>(e, t) \<in> set evs. t < t1 + 30"
    and second: "t2 < t1 + 30"
  shows "let s2 = process_events D R (snd (process_event D R t1 e1 s)) evs
         in fst (is_duplicate_event R s2 t2 e2)
            \<and> fst (process_event D R t2 e2 s2) = []
            \<and> rules_state (snd (process_event D R t2 e2 s2)) = rules_state s2
            \<and> classifier_state (snd (process_event D R t2 e2 s2)) = classifier_state s2"
proof -
  let ?fp = "create_event_fingerprint R e1"
  let ?s1 = "snd (process_event D R t1 e1 s)"
  let ?s2 = "process_events D R ?s1 evs"
  have "recent_events ?s1 ?fp = Some t1"
    using is_duplicate_event_records [OF first] by (simp add: process_event_recent)
  from process_events_keeps [OF this between]
  have "recent_events ?s2 (create_event_fingerprint R e2) = Some t1" by (simp add: same)
  from is_duplicate_event_detects [OF this second]
  have dup: "is_duplicate_event R ?s2 t2 e2 = (True, ?s2)" .
  from process_event_duplicate [OF dup, of D] dup show ?thesis by (simp add: Let_def)
qed

theorem duplicate_within_window_not_evaluated_witness:
  "let D = repository_collaborators (\<lambda>_. None) default_thresholds (\<lambda>e r a. Some (name r));
       ev = [(''type'', PStr ''userFills''), (''wallet'', PStr ''A''), (''coin'', PStr ''BTC'')];
       other = [(''type'', PStr ''userFills''), (''wallet'', PStr ''A''), (''coin'', PStr ''ETH'')];
       s0 = init_alert_engine (init_rules_engine []) [];
       s2 = process_events D (\<lambda>_. []) (snd (process_event D (\<lambda>_. []) 0 ev s0)) [(other, 5)]
   in \<not> fst (is_duplicate_event (\<lambda>_. []) s0 0 ev)
      \<and> fst (is_duplicate_event (\<lambda>_. []) s2 10 ev)
      \<and> fst (process_event D (\<lambda>_. []) 10 ev s2) = []
      \<and> rules_state (snd (process_event D (\<lambda>_. []) 10 ev s2)) = rules_state s2"
proof -
  let ?D = "repository_collaborators (\<lambda>_. None) default_thresholds (\<lambda>e r a. Some (name r))"
  let ?ev = "[(''type'', PStr ''userFills''), (''wallet'', PStr ''A''), (''coin'', PStr ''BTC'')]"
  let ?other = "[(''type'', PStr ''userFills''), (''wallet'', PStr ''A''), (''coin'', PStr ''ETH'')]"
  let ?s0 = "init_alert_engine (init_rules_engine []) ([] :: (pyval \<times> position_size list) list)"
  have first: "\<not> fst (is_duplicate_event (\<lambda>_. []) ?s0 0 ?ev)"
    by (simp add: is_duplicate_event_def init_alert_engine_def Let_def)
  have between: "\<forall>(e, t) \<in> set [(?other, 5::real)]. t < 0 + 30" by simp
  have second: "(10::real) < 0 + 30" by simp
  from duplicate_within_window_not_evaluated [OF first refl between second, of ?D] first
  show ?thesis by (simp add: Let_def)
qed

section \<open>Fingerprints\<close>

lemma digit_char_inj:
  assumes "a < 10" "b < 10" "digit_char a = digit_char b"
  shows "a = b"
proof -
  have d: "distinct ''0123456789''" by simp
  have l: "length ''0123456789'' = 10" by simp
  from assms show ?thesis
    unfolding digit_char_def using nth_eq_iff_index_eq [OF d, of a b] l by simp
qed

lemma digit_char_digit:
  "d < 10 \<Longrightarrow> digit_char d \<in> set ''0123456789''"
  unfolding digit_char_def by (rule nth_mem) simp

lemma nat_str_nonempty: "nat_str n \<noteq> []"
  by (subst nat_str.simps) simp

lemma nat_str_digits: "set (nat_str n) \<subseteq> set ''0123456789''"
proof (induction n rule: nat_str.induct)
  case (1 n)
  show ?case
  proof (cases "n < 10")
    case True
    then show ?thesis using digit_char_digit [of n] by (subst nat_str.simps) simp
  next
    case False
    have "n mod 10 < 10" by simp
    from digit_char_digit [OF this] "1" [OF False] False show ?thesis
      by (subst nat_str.simps) simp
  qed
qed

lemma nat_str_inj: "nat_str n = nat_str m \<Longrightarrow> n = m"
proof (induction n arbitrary: m rule: nat_str.induct)
  case (1 n)
  show ?case
  proof (cases "n < 10")
    case n: True
    show ?thesis
    proof (cases "m < 10")
      case True
      with n "1.prems" have "digit_char n = digit_char m"
        by (simp add: nat_str.simps [of n] nat_str.simps [of m])
      with n True show ?thesis by (rule digit_char_inj)
    next
      case False
      with n "1.prems" have "nat_str (m div 10) = []"
        by (simp add: nat_str.simps [of n] nat_str.simps [of m])
      with nat_str_nonempty show ?thesis by blast
    qed
  next
    case n: False
    show ?thesis
    proof (cases "m < 10")
      case True
      with n "1.prems" have "nat_str (n div 10) = []"
        by (simp add: nat_str.simps [of n] nat_str.simps [of m])
      with nat_str_nonempty show ?thesis by blast
    next
      case False
      with n "1.prems" have a: "nat_str (n div 10) = nat_str (m div 10)"
        and b: "digit_char (n mod 10) = digit_char (m mod 10)"
        by (simp_all add: nat_str.simps [of n] nat_str.simps [of m])
      from "1.IH" [OF n a] have q: "n div 10 = m div 10" .
      have "n mod 10 = m mod 10" using b by (intro digit_char_inj) simp_all
      with q show ?thesis by (metis div_mult_mod_eq)
    qed
  qed
qed

lemma int_str_nonempty: "int_str i \<noteq> []"
  by (simp add: int_str_def nat_str_nonempty)

lemma nat_str_no_minus: "nat_str n \<noteq> CHR ''-'' # xs"
proof
  assume "nat_str n = CHR ''-'' # xs"
  then have "CHR ''-'' \<in> set (nat_str n)" by simp
  with nat_str_digits [of n] show False by auto
qed

lemma int_str_inj: "int_str i = int_str j \<Longrightarrow> i = j"
proof (cases "i < 0"; cases "j < 0")
  assume "int_str i = int_str j" "i < 0" "j < 0"
  then have "nat (- i) = nat (- j)" by (simp add: int_str_def nat_str_inj)
  with \<open>i < 0\<close> \<open>j < 0\<close> show ?thesis by simp
next
  assume "int_str i = int_str j" "i < 0" "\<not> j < 0"
  then have "nat_str (nat j) = CHR ''-'' # nat_str (nat (- i))" by (simp add: int_str_def)
  with nat_str_no_minus show ?thesis by blast
next
  assume "int_str i = int_str j" "\<not> i < 0" "j < 0"
  then show ?thesis using nat_str_no_minus [of "nat i"] by (simp add: int_str_def)
next
  assume "int_str i = int_str j" "\<not> i < 0" "\<not> j < 0"
  then have "nat i = nat j" by (simp add: int_str_def nat_str_inj)
  with \<open>\<not> i < 0\<close> \<open>\<not> j < 0\<close> show ?thesis by simp
qed

lemma int_str_no_dot: "CHR ''.'' \<notin> set (int_str i)"
  using nat_str_digits [of "nat i"] nat_str_digits [of "nat (- i)"]
  by (auto simp: int_str_def)

subsection \<open>The join\<close>

lemma sepcat_join: "xs \<noteq> [] \<Longrightarrow> sep @ join sep xs = sepcat sep xs"
  by (induction sep xs rule: join.induct) (simp_all add: sepcat_def)

lemma join_eq_sepcat:
  assumes "xs \<noteq> []" "ys \<noteq> []"
  shows "join sep xs = join sep ys \<longleftrightarrow> sepcat sep xs = sepcat sep ys"
  using sepcat_join [OF assms(1), of sep] sepcat_join [OF assms(2), of sep]
  by (metis same_append_eq)

lemma join_middle_inj:
  assumes "join sep (A @ [x] @ B) = join sep (A @ [y] @ B)"
  shows "x = y"
proof -
  have "sepcat sep (A @ [x] @ B) = sepcat sep (A @ [y] @ B)"
    using assms join_eq_sepcat [of "A @ [x] @ B" "A @ [y] @ B" sep] by simp
  then show ?thesis by (simp add: sepcat_def)
qed

lemma join_insert_differs:
  assumes "B \<noteq> []" "sep \<noteq> []"
  shows "join sep (A @ [x] @ B) \<noteq> join sep (A @ B)"
proof
  assume "join sep (A @ [x] @ B) = join sep (A @ B)"
  then have "sepcat sep (A @ [x] @ B) = sepcat sep (A @ B)"
    using assms join_eq_sepcat [of "A @ [x] @ B" "A @ B" sep] by simp
  then have "sep @ x @ sepcat sep B = sepcat sep B" by (simp add: sepcat_def)
  then have "length (sep @ x @ sepcat sep B) = length (sepcat sep B)" by simp
  with assms(2) show False by simp
qed

subsection \<open>The fingerprint of a well-typed event\<close>

lemma text_part_filter:
  assumes "text_field e k"
  shows "map (py_str R) (filter (\<lambda>field. field \<noteq> PNone) (dict_get e k # rest))
           = text_part e k @ map (py_str R) (filter (\<lambda>field. field \<noteq> PNone) rest)"
proof (cases "map_of e k")
  case None
  then show ?thesis by (simp add: text_part_def dict_get_def)
next
  case (Some v)
  with assms obtain s where "v = PStr s"
    by (cases v) (simp_all add: text_field_def)
  with Some show ?thesis by (simp add: text_part_def dict_get_def)
qed

lemma fingerprint_typed:
  assumes "typed_event F e"
  shows "create_event_fingerprint R e =
           join ''|'' (text_part e ''type'' @ text_part e ''wallet'' @ text_part e ''coin''
                      @ text_part e ''side''
                      @ [number_part R e ''usd_value'', number_part R e ''size'',
                         number_part R e ''price''])"
proof -
  from assms have t: "text_field e ''type''" "text_field e ''wallet''" "text_field e ''coin''"
    "text_field e ''side''"
    by (simp_all add: typed_event_def)
  show ?thesis
    unfolding create_event_fingerprint_def key_fields_def
    by (simp only: text_part_filter [OF t(1)] text_part_filter [OF t(2)]
        text_part_filter [OF t(3)] text_part_filter [OF t(4)])
      (simp add: number_part_def)
qed

lemma text_part_cases:
  assumes "text_field e k" "text_field e' k" "map_of e' k \<noteq> map_of e k"
  shows "(text_part e k = [] \<and> (\<exists>s. text_part e' k = [s]))
         \<or> ((\<exists>s. text_part e k = [s]) \<and> text_part e' k = [])
         \<or> (\<exists>s s'. text_part e k = [s] \<and> text_part e' k = [s'] \<and> s \<noteq> s')"
  using assms
  by (auto simp: text_field_def text_part_def split: option.splits pyval.splits)

lemma number_part_differs:
  assumes ok: "float_repr_ok R F"
    and n: "number_field F e k" and n': "number_field F e' k"
    and d: "map_of e' k \<noteq> map_of e k"
  shows "number_part R e' k \<noteq> number_part R e k"
proof -
  have inj: "\<And>r r'. r \<in> F \<Longrightarrow> r' \<in> F \<Longrightarrow> R (PFloat r) = R (PFloat r') \<Longrightarrow> r = r'"
    using ok by (auto simp: float_repr_ok_def inj_on_def)
  have ne: "\<And>r. r \<in> F \<Longrightarrow> R (PFloat r) \<noteq> []"
    using ok by (auto simp: float_repr_ok_def)
  have ni: "\<And>r i. r \<in> F \<Longrightarrow> R (PFloat r) \<noteq> int_str i"
    using ok by (auto simp: float_repr_ok_def)
  have ni': "\<And>r i. r \<in> F \<Longrightarrow> int_str i \<noteq> R (PFloat r)"
    using ni by metis
  have ie: "\<And>i. int_str i \<noteq> []" by (rule int_str_nonempty)
  have ie': "\<And>i. [] \<noteq> int_str i" using int_str_nonempty by metis
  have ne': "\<And>r. r \<in> F \<Longrightarrow> [] \<noteq> R (PFloat r)" using ne by metis
  from n n' d show ?thesis
    unfolding number_field_def number_part_def dict_get_default_def
    by (auto split: option.splits pyval.splits dest: int_str_inj inj
        simp: ne ni ie ne' ni' ie')
qed

lemma text_part_same: "map_of e' k = map_of e k \<Longrightarrow> text_part e' k = text_part e k"
  by (simp add: text_part_def)

lemma number_part_same: "map_of e' k = map_of e k \<Longrightarrow> number_part R e' k = number_part R e k"
  by (simp add: number_part_def dict_get_default_def)

lemma join_text_part_differs:
  assumes "B \<noteq> []"
    and "(p = [] \<and> (\<exists>s. p' = [s])) \<or> ((\<exists>s. p = [s]) \<and> p' = [])
         \<or> (\<exists>s s'. p = [s] \<and> p' = [s'] \<and> s \<noteq> s')"
  shows "join ''|'' (A @ p' @ B) \<noteq> join ''|'' (A @ p @ B)"
proof -
  have sep: "''|'' \<noteq> []" by simp
  from assms(2) consider (ins) s where "p = []" "p' = [s]"
    | (del) s where "p = [s]" "p' = []"
    | (chg) s s' where "p = [s]" "p' = [s']" "s \<noteq> s'"
    by blast
  then show ?thesis
  proof cases
    case ins
    with join_insert_differs [OF assms(1) sep, of A s] show ?thesis by simp
  next
    case del
    with join_insert_differs [OF assms(1) sep, of A s] show ?thesis by simp
  next
    case chg
    with join_middle_inj [of "''|''" A s' B s] show ?thesis by auto
  qed
qed

lemma fingerprint_depends_on_fields:
  assumes "\<forall>k \<in> set fingerprint_fields. map_of e' k = map_of e k"
  shows "create_event_fingerprint R e' = create_event_fingerprint R e"
  using assms
  by (simp add: create_event_fingerprint_def key_fields_def dict_get_def dict_get_default_def
      fingerprint_fields_def)

lemma fingerprint_single_change:
  assumes ok: "float_repr_ok R F" and ty: "typed_event F e" and ty': "typed_event F e'"
    and k: "k \<in> set fingerprint_fields"
    and others: "\<forall>k' \<in> set fingerprint_fields. k' \<noteq> k \<longrightarrow> map_of e' k' = map_of e k'"
    and changed: "map_of e' k \<noteq> map_of e k"
  shows "create_event_fingerprint R e' \<noteq> create_event_fingerprint R e"
proof -
  let ?N = "[number_part R e ''usd_value'', number_part R e ''size'', number_part R e ''price'']"
  note fp = fingerprint_typed [OF ty, of R] fingerprint_typed [OF ty', of R]
  from ty have t: "text_field e ''type''" "text_field e ''wallet''" "text_field e ''coin''"
    "text_field e ''side''" "number_field F e ''usd_value''" "number_field F e ''size''"
    "number_field F e ''price''"
    by (simp_all add: typed_event_def)
  from ty' have t': "text_field e' ''type''" "text_field e' ''wallet''" "text_field e' ''coin''"
    "text_field e' ''side''" "number_field F e' ''usd_value''" "number_field F e' ''size''"
    "number_field F e' ''price''"
    by (simp_all add: typed_event_def)
  from k have "k = ''type'' \<or> k = ''wallet'' \<or> k = ''coin'' \<or> k = ''side''
    \<or> k = ''usd_value'' \<or> k = ''size'' \<or> k = ''price''"
    by (simp add: fingerprint_fields_def)
  then show ?thesis
  proof (elim disjE)
    assume c1: "k = ''type''"
    with others have s: "map_of e' ''wallet'' = map_of e ''wallet''"
      "map_of e' ''coin'' = map_of e ''coin''" "map_of e' ''side'' = map_of e ''side''"
      "map_of e' ''usd_value'' = map_of e ''usd_value''" "map_of e' ''size'' = map_of e ''size''"
      "map_of e' ''price'' = map_of e ''price''"
      by (simp_all add: fingerprint_fields_def)
    from changed c1 have c: "map_of e' ''type'' \<noteq> map_of e ''type''" by simp
    from join_text_part_differs [OF _ text_part_cases [OF t(1) t'(1) c],
        of "text_part e ''wallet'' @ text_part e ''coin'' @ text_part e ''side'' @ ?N" "[]"]
    show ?thesis
      by (simp add: fp text_part_same [OF s(1)] text_part_same [OF s(2)] text_part_same [OF s(3)]
          number_part_same [OF s(4)] number_part_same [OF s(5)] number_part_same [OF s(6)])
  next
    assume c2: "k = ''wallet''"
    with others have s: "map_of e' ''type'' = map_of e ''type''"
      "map_of e' ''coin'' = map_of e ''coin''" "map_of e' ''side'' = map_of e ''side''"
      "map_of e' ''usd_value'' = map_of e ''usd_value''" "map_of e' ''size'' = map_of e ''size''"
      "map_of e' ''price'' = map_of e ''price''"
      by (simp_all add: fingerprint_fields_def)
    from changed c2 have c: "map_of e' ''wallet'' \<noteq> map_of e ''wallet''" by simp
    from join_text_part_differs [OF _ text_part_cases [OF t(2) t'(2) c],
        of "text_part e ''coin'' @ text_part e ''side'' @ ?N" "text_part e ''type''"]
    show ?thesis
      by (simp add: fp text_part_same [OF s(1)] text_part_same [OF s(2)] text_part_same [OF s(3)]
          number_part_same [OF s(4)] number_part_same [OF s(5)] number_part_same [OF s(6)])
  next
    assume c3: "k = ''coin''"
    with others have s: "map_of e' ''type'' = map_of e ''type''"
      "map_of e' ''wallet'' = map_of e ''wallet''" "map_of e' ''side'' = map_of e ''side''"
      "map_of e' ''usd_value'' = map_of e ''usd_value''" "map_of e' ''size'' = map_of e ''size''"
      "map_of e' ''price'' = map_of e ''price''"
      by (simp_all add: fingerprint_fields_def)
    from changed c3 have c: "map_of e' ''coin'' \<noteq> map_of e ''coin''" by simp
    from join_text_part_differs [OF _ text_part_cases [OF t(3) t'(3) c],
        of "text_part e ''side'' @ ?N" "text_part e ''type'' @ text_part e ''wallet''"]
    show ?thesis
      by (simp add: fp text_part_same [OF s(1)] text_part_same [OF s(2)] text_part_same [OF s(3)]
          number_part_same [OF s(4)] number_part_same [OF s(5)] number_part_same [OF s(6)])
  next
    assume c4: "k = ''side''"
    with others have s: "map_of e' ''type'' = map_of e ''type''"
      "map_of e' ''wallet'' = map_of e ''wallet''" "map_of e' ''coin'' = map_of e ''coin''"
      "map_of e' ''usd_value'' = map_of e ''usd_value''" "map_of e' ''size'' = map_of e ''size''"
      "map_of e' ''price'' = map_of e ''price''"
      by (simp_all add: fingerprint_fields_def)
    from changed c4 have c: "map_of e' ''side'' \<noteq> map_of e ''side''" by simp
    from join_text_part_differs [OF _ text_part_cases [OF t(4) t'(4) c],
        of ?N "text_part e ''type'' @ text_part e ''wallet'' @ text_part e ''coin''"]
    show ?thesis
      by (simp add: fp text_part_same [OF s(1)] text_part_same [OF s(2)] text_part_same [OF s(3)]
          number_part_same [OF s(4)] number_part_same [OF s(5)] number_part_same [OF s(6)])
  next
    assume c5: "k = ''usd_value''"
    with others have s: "map_of e' ''type'' = map_of e ''type''"
      "map_of e' ''wallet'' = map_of e ''wallet''" "map_of e' ''coin'' = map_of e ''coin''"
      "map_of e' ''side'' = map_of e ''side''" "map_of e' ''size'' = map_of e ''size''"
      "map_of e' ''price'' = map_of e ''price''"
      by (simp_all add: fingerprint_fields_def)
    from changed c5 have c: "map_of e' ''usd_value'' \<noteq> map_of e ''usd_value''" by simp
    from number_part_differs [OF ok t(5) t'(5) c]
      join_middle_inj [of "''|''"
        "text_part e ''type'' @ text_part e ''wallet'' @ text_part e ''coin'' @ text_part e ''side''"
        "number_part R e' ''usd_value''"
        "[number_part R e ''size'', number_part R e ''price'']"
        "number_part R e ''usd_value''"]
    show ?thesis
      by (auto simp: fp text_part_same [OF s(1)] text_part_same [OF s(2)] text_part_same [OF s(3)]
          text_part_same [OF s(4)] number_part_same [OF s(5)] number_part_same [OF s(6)])
  next
    assume c6: "k = ''size''"
    with others have s: "map_of e' ''type'' = map_of e ''type''"
      "map_of e' ''wallet'' = map_of e ''wallet''" "map_of e' ''coin'' = map_of e ''coin''"
      "map_of e' ''side'' = map_of e ''side''" "map_of e' ''usd_value'' = map_of e ''usd_value''"
      "map_of e' ''price'' = map_of e ''price''"
      by (simp_all add: fingerprint_fields_def)
    from changed c6 have c: "map_of e' ''size'' \<noteq> map_of e ''size''" by simp
    from number_part_differs [OF ok t(6) t'(6) c]
      join_middle_inj [of "''|''"
        "text_part e ''type'' @ text_part e ''wallet'' @ text_part e ''coin'' @ text_part e ''side''
           @ [number_part R e ''usd_value'']"
        "number_part R e' ''size''"
        "[number_part R e ''price'']"
        "number_part R e ''size''"]
    show ?thesis
      by (auto simp: fp text_part_same [OF s(1)] text_part_same [OF s(2)] text_part_same [OF s(3)]
          text_part_same [OF s(4)] number_part_same [OF s(5)] number_part_same [OF s(6)])
  next
    assume c7: "k = ''price''"
    with others have s: "map_of e' ''type'' = map_of e ''type''"
      "map_of e' ''wallet'' = map_of e ''wallet''" "map_of e' ''coin'' = map_of e ''coin''"
      "map_of e' ''side'' = map_of e ''side''" "map_of e' ''usd_value'' = map_of e ''usd_value''"
      "map_of e' ''size'' = map_of e ''size''"
      by (simp_all add: fingerprint_fields_def)
    from changed c7 have c: "map_of e' ''price'' \<noteq> map_of e ''price''" by simp
    from number_part_differs [OF ok t(7) t'(7) c]
      join_middle_inj [of "''|''"
        "text_part e ''type'' @ text_part e ''wallet'' @ text_part e ''coin'' @ text_part e ''side''
           @ [number_part R e ''usd_value'', number_part R e ''size'']"
        "number_part R e' ''price''"
        "[]"
        "number_part R e ''price''"]
    show ?thesis
      by (auto simp: fp text_part_same [OF s(1)] text_part_same [OF s(2)] text_part_same [OF s(3)]
          text_part_same [OF s(4)] number_part_same [OF s(5)] number_part_same [OF s(6)])
  qed
qed

text \<open>
  C8 (counterexample). Changing the single field \<open>usd_value\<close> from the number 1 to the
  string \<open>1\<close>, or from the empty string to absent, leaves the fingerprint unchanged; and an
  absent coin is not rendered as an empty part but dropped with its separator.
\<close>

theorem fingerprint_collision_counterexample:
  "map_of [(''type'', PStr ''userFills''), (''wallet'', PStr ''A''), (''usd_value'', PInt 1)]
      ''usd_value''
     \<noteq> map_of [(''type'', PStr ''userFills''), (''wallet'', PStr ''A''),
                (''usd_value'', PStr ''1'')] ''usd_value''
   \<and> create_event_fingerprint (\<lambda>_. [])
         [(''type'', PStr ''userFills''), (''wallet'', PStr ''A''), (''usd_value'', PInt 1)]
       = create_event_fingerprint (\<lambda>_. [])
           [(''type'', PStr ''userFills''), (''wallet'', PStr ''A''), (''usd_value'', PStr ''1'')]
   \<and> create_event_fingerprint (\<lambda>_. [])
         [(''type'', PStr ''userFills''), (''wallet'', PStr ''A''), (''usd_value'', PStr '''')]
       = create_event_fingerprint (\<lambda>_. [])
           [(''type'', PStr ''userFills''), (''wallet'', PStr ''A'')]
   \<and> create_event_fingerprint (\<lambda>_. [])
         [(''type'', PStr ''userFills''), (''wallet'', PStr ''A''), (''side'', PStr ''buy'')]
       = ''userFills|A|buy|||''"
  by (simp add: create_event_fingerprint_def key_fields_def dict_get_def dict_get_default_def
      int_str_def nat_str.simps digit_char_def)

text \<open>
  C8 (amended). The fingerprint is the pipe-join of the present ones among kind, account,
  coin and side, followed by the texts of the USD value, the size and the price (empty when
  absent). It is stable: events that agree on the seven fields have the same fingerprint.
  For events of the data model (kind, account, coin, side strings or absent; USD value, size,
  price numbers or absent) a change of exactly one of the seven fields, a present field made
  absent or an absent one present included, gives a different fingerprint.
\<close>

theorem fingerprint_stable_and_distinct:
  "((\<forall>k \<in> set fingerprint_fields. map_of e' k = map_of e k)
      \<longrightarrow> create_event_fingerprint R e' = create_event_fingerprint R e)
   \<and> (float_repr_ok R F \<and> typed_event F e \<and> typed_event F e' \<and> k \<in> set fingerprint_fields
        \<and> (\<forall>k' \<in> set fingerprint_fields. k' \<noteq> k \<longrightarrow> map_of e' k' = map_of e k')
        \<and> map_of e' k \<noteq> map_of e k
      \<longrightarrow> create_event_fingerprint R e' \<noteq> create_event_fingerprint R e)"
proof (intro conjI impI)
  assume "\<forall>k \<in> set fingerprint_fields. map_of e' k = map_of e k"
  then show "create_event_fingerprint R e' = create_event_fingerprint R e"
    by (rule fingerprint_depends_on_fields)
next
  assume a: "float_repr_ok R F \<and> typed_event F e \<and> typed_event F e' \<and> k \<in> set fingerprint_fields
        \<and> (\<forall>k' \<in> set fingerprint_fields. k' \<noteq> k \<longrightarrow> map_of e' k' = map_of e k')
        \<and> map_of e' k \<noteq> map_of e k"
  then have "float_repr_ok R F" "typed_event F e" "typed_event F e'" "k \<in> set fingerprint_fields"
    "\<forall>k' \<in> set fingerprint_fields. k' \<noteq> k \<longrightarrow> map_of e' k' = map_of e k'"
    "map_of e' k \<noteq> map_of e k"
    by blast+
  then show "create_event_fingerprint R e' \<noteq> create_event_fingerprint R e"
    by (rule fingerprint_single_change)
qed

theorem fingerprint_stable_and_distinct_witness:
  "create_event_fingerprint (\<lambda>_. ''0.5'')
      [(''type'', PStr ''userFills''), (''wallet'', PStr ''A''), (''price'', PFloat (1 / 2))]
     \<noteq> create_event_fingerprint (\<lambda>_. ''0.5'')
         [(''type'', PStr ''userFills''), (''wallet'', PStr ''A''), (''coin'', PStr ''BTC''),
          (''price'', PFloat (1 / 2))]
   \<and> create_event_fingerprint (\<lambda>_. ''0.5'')
        [(''type'', PStr ''userFills''), (''wallet'', PStr ''A''), (''coin'', PStr ''BTC''),
         (''price'', PFloat (1 / 2)), (''raw'', PNone)]
      = create_event_fingerprint (\<lambda>_. ''0.5'')
         [(''type'', PStr ''userFills''), (''wallet'', PStr ''A''), (''coin'', PStr ''BTC''),
          (''price'', PFloat (1 / 2))]"
proof -
  let ?R = "\<lambda>_ :: pyval. ''0.5''"
  let ?e = "[(''type'', PStr ''userFills''), (''wallet'', PStr ''A''), (''coin'', PStr ''BTC''),
          (''price'', PFloat (1 / 2))]"
  let ?e1 = "[(''type'', PStr ''userFills''), (''wallet'', PStr ''A''), (''price'', PFloat (1 / 2))]"
  let ?e2 = "[(''type'', PStr ''userFills''), (''wallet'', PStr ''A''), (''coin'', PStr ''BTC''),
         (''price'', PFloat (1 / 2)), (''raw'', PNone)]"
  have nd: "\<And>i. ''0.5'' \<noteq> int_str i"
    using int_str_no_dot by (metis list.set_intros(1) list.set_intros(2))
  have ok: "float_repr_ok ?R {1 / 2}"
    by (simp add: float_repr_ok_def nd)
  have ty: "typed_event {1 / 2} ?e" "typed_event {1 / 2} ?e1"
    by (simp_all add: typed_event_def text_field_def number_field_def)
  have k: "''coin'' \<in> set fingerprint_fields" by (simp add: fingerprint_fields_def)
  have others: "\<forall>k' \<in> set fingerprint_fields. k' \<noteq> ''coin'' \<longrightarrow> map_of ?e1 k' = map_of ?e k'"
    by (simp add: fingerprint_fields_def)
  have changed: "map_of ?e1 ''coin'' \<noteq> map_of ?e ''coin''" by simp
  have same: "\<forall>k \<in> set fingerprint_fields. map_of ?e2 k = map_of ?e k"
    by (simp add: fingerprint_fields_def)
  from fingerprint_stable_and_distinct [where R = ?R and F = "{1 / 2}" and e = ?e and e' = ?e1
      and k = "''coin''"] ok ty k others changed
  have "create_event_fingerprint ?R ?e1 \<noteq> create_event_fingerprint ?R ?e" by blast
  moreover from fingerprint_stable_and_distinct [where R = ?R and e = ?e and e' = ?e2] same
  have "create_event_fingerprint ?R ?e2 = create_event_fingerprint ?R ?e" by blast
  ultimately show ?thesis by blast
qed

section \<open>Rate limiting in the dispatcher\<close>

lemma update_values_subset:
  "snd ` set (AList.update k v al) \<subseteq> insert v (snd ` set al)"
  by (induction al) auto

text \<open>No branch of \<open>can_send_request\<close> records a request: lists of request times that are
  empty stay empty.\<close>

lemma can_send_request_requests_empty:
  assumes "\<forall>st \<in> set (channel_stats rl). requests (snd st) = []"
  shows "\<forall>st \<in> set (channel_stats (snd (can_send_request rl now channel wallet))).
           requests (snd st) = []"
proof -
  let ?key = "get_key channel wallet"
  have stats: "requests (case map_of (channel_stats rl) ?key of
                     None \<Rightarrow> \<lparr>requests = [], tokens = real_of_int (burst_capacity (config rl)),
                               last_refill = now\<rparr>
                   | Some st \<Rightarrow> st) = []"
    using assms by (auto split: option.splits dest!: map_of_SomeD)
  have upd: "\<And>v. requests v = [] \<Longrightarrow> \<forall>st \<in> set (AList.update ?key v (channel_stats rl)).
                requests (snd st) = []"
    using assms update_values_subset [of ?key _ "channel_stats rl"] by fastforce
  show ?thesis
  proof (cases "strategy (config rl)")
    case FIXED_WINDOW
    then show ?thesis by (simp add: can_send_request_def Let_def stats) (rule upd, simp)
  next
    case SLIDING_WINDOW
    then show ?thesis by (simp add: can_send_request_def Let_def stats) (rule upd, simp)
  next
    case TOKEN_BUCKET
    then show ?thesis
      by (simp add: can_send_request_def Let_def) (auto intro!: upd [rule_format] simp: stats)
  next
    case LEAKY_BUCKET
    then show ?thesis by (simp add: can_send_request_def Let_def) (rule upd, simp add: stats)
  qed
qed

text \<open>So a sliding window with room for at least one request admits every request.\<close>

lemma sliding_window_always_admits:
  assumes "strategy (config rl) = SLIDING_WINDOW" and "1 \<le> max_requests (config rl)"
    and "\<forall>st \<in> set (channel_stats rl). requests (snd st) = []"
  shows "fst (can_send_request rl now channel wallet) = Inr (True, 0)"
proof -
  have "requests (case map_of (channel_stats rl) (get_key channel wallet) of
                     None \<Rightarrow> \<lparr>requests = [], tokens = real_of_int (burst_capacity (config rl)),
                               last_refill = now\<rparr>
                   | Some st \<Rightarrow> st) = []"
    using assms(3) by (auto split: option.splits dest!: map_of_SomeD)
  with assms(1,2) show ?thesis by (simp add: can_send_request_def Let_def)
qed

text \<open>
  C1 (what the code does). Eleven notifications dispatched to Discord for one wallet at
  the seconds 0 to 10, with the default sliding window of 10 requests per 60 seconds and a
  channel that accepts every send: all eleven are sent, and none is deferred.
\<close>

theorem eleven_discord_sends_all_sent:
  "(let notif = \<lparr>rule_name = ''large_position'', context_wallet = Some ''0xabcdef0123'',
                  formatted = [(''discord'', ''alert'')]\<rparr>;
        d = dispatcher_run (\<lambda>_. True) (init_dispatcher [(''discord'', True)])
              [Dispatch 0 notif, Dispatch 1 notif, Dispatch 2 notif, Dispatch 3 notif,
               Dispatch 4 notif, Dispatch 5 notif, Dispatch 6 notif, Dispatch 7 notif,
               Dispatch 8 notif, Dispatch 9 notif, Dispatch 10 notif]
    in (length (send_log d), notifications_sent d, rate_limited d)) = (11, 11, 0)"
  by code_simp

section \<open>Retries\<close>

lemma send_notification_to_channel_queue:
  "retry_queue (snd (send_notification_to_channel net d channel content)) = retry_queue d"
  by (simp add: send_notification_to_channel_def)

lemma list_all_remove1: "list_all P xs \<Longrightarrow> list_all P (remove1 x xs)"
  by (induction xs) auto

lemma process_retry_item_bounded:
  assumes "retry_bounded d"
  shows "retry_bounded (process_retry_item net now d item)"
proof -
  let ?d1 = "d\<lparr>retry_queue := remove1 item (retry_queue d),
                 retries_attempted := retries_attempted d + 1\<rparr>"
  let ?item' = "reschedule now item"
  obtain ok d2 where s: "send_notification_to_channel net ?d1 (ri_channel ?item') (ri_content ?item')
                          = (ok, d2)"
    by (cases "send_notification_to_channel net ?d1 (ri_channel ?item') (ri_content ?item')")
  from send_notification_to_channel_queue [of net ?d1 "ri_channel ?item'" "ri_content ?item'"] s
  have q: "retry_queue d2 = remove1 item (retry_queue d)" by simp
  from assms have "list_all (\<lambda>item. ri_retry_count item < max_retries) (retry_queue d2)"
    unfolding q retry_bounded_def by (rule list_all_remove1)
  then show ?thesis
    unfolding process_retry_item_def Let_def s by (simp add: retry_bounded_def)
qed

lemma process_retries_bounded:
  assumes "retry_bounded d"
  shows "retry_bounded (process_retries net now d)"
proof -
  have "\<And>d. retry_bounded d \<Longrightarrow> retry_bounded (foldl (process_retry_item net now) d items)"
    for items :: "'a retry_item list"
    by (induction items) (simp_all add: process_retry_item_bounded)
  with assms show ?thesis by (simp add: process_retries_def)
qed

lemma add_to_retry_queue_bounded:
  "retry_bounded d \<Longrightarrow> retry_bounded (add_to_retry_queue d now channel wallet content notif)"
  by (simp add: add_to_retry_queue_def retry_bounded_def max_retries_def)

lemma send_and_record_bounded:
  assumes "retry_bounded d"
  shows "retry_bounded (snd (send_and_record net d now channel wallet content notif))"
proof -
  obtain ok d1 where s: "send_notification_to_channel net d channel content = (ok, d1)"
    by (cases "send_notification_to_channel net d channel content")
  from send_notification_to_channel_queue [of net d channel content] s assms
  have b: "retry_bounded d1" by (simp add: retry_bounded_def)
  then have "retry_bounded (d1\<lparr>notifications_failed := notifications_failed d1 + 1\<rparr>)"
    by (simp add: retry_bounded_def)
  from add_to_retry_queue_bounded [OF this] b show ?thesis
    unfolding send_and_record_def s by (simp add: retry_bounded_def)
qed

lemma send_to_channel_bounded:
  assumes "retry_bounded d"
  shows "retry_bounded (snd (send_to_channel net d now channel wallet content notif))"
proof (cases "map_of (rate_limiters d) channel")
  case None
  with send_and_record_bounded [OF assms] show ?thesis by (simp add: send_to_channel_def)
next
  case (Some rl)
  obtain res rl' where c: "can_send_request rl now channel wallet = (res, rl')"
    by (cases "can_send_request rl now channel wallet")
  have upd: "\<And>x. retry_bounded (d\<lparr>rate_limiters := x\<rparr>)"
    using assms by (simp add: retry_bounded_def)
  show ?thesis
  proof (cases res)
    case (Inl err)
    have "retry_bounded (d\<lparr>rate_limiters := AList.update channel rl' (rate_limiters d),
                           notifications_failed := notifications_failed d + 1\<rparr>)"
      using assms by (simp add: retry_bounded_def)
    from add_to_retry_queue_bounded [OF this] show ?thesis
      by (simp add: send_to_channel_def Some c Inl)
  next
    case (Inr r)
    obtain can_send wait_time where r: "r = (can_send, wait_time)" by (cases r)
    show ?thesis
    proof (cases can_send)
      case True
      with send_and_record_bounded [OF upd] show ?thesis
        by (simp add: send_to_channel_def Some c Inr r)
    next
      case False
      with assms show ?thesis
        by (simp add: send_to_channel_def Some c Inr r Let_def retry_bounded_def)
    qed
  qed
qed

lemma dispatch_channels_bounded:
  "retry_bounded d \<Longrightarrow> retry_bounded (snd (dispatch_channels net d now wallet notif chans))"
proof (induction chans arbitrary: d)
  case Nil
  then show ?case by simp
next
  case (Cons ch chans)
  obtain channel is_enabled where ch: "ch = (channel, is_enabled)" by (cases ch)
  show ?case
  proof (cases "is_enabled \<and> map_of (formatted notif) channel \<noteq> None")
    case False
    with Cons show ?thesis by (auto simp: ch)
  next
    case True
    then obtain content where f: "map_of (formatted notif) channel = Some content" by blast
    obtain ok d1 where s: "send_to_channel net d now channel wallet content notif = (ok, d1)"
      by (cases "send_to_channel net d now channel wallet content notif")
    from send_to_channel_bounded [OF Cons.prems, of net now channel wallet content notif] s
    have "retry_bounded d1" by simp
    from Cons.IH [OF this] True show ?thesis
      by (auto simp: ch f s split: prod.splits)
  qed
qed

lemma dispatcher_step_bounded:
  assumes "retry_bounded d"
  shows "retry_bounded (dispatcher_step net d op)"
proof (cases op)
  case (Dispatch now notif)
  with assms dispatch_channels_bounded [OF assms] show ?thesis
    by (simp add: dispatch_notification_def split: option.splits)
next
  case (RetryPass now)
  with process_retries_bounded [OF assms] show ?thesis by simp
next
  case (FlushPass channel now)
  with assms show ?thesis
    by (simp add: flush_channel_def retry_bounded_def split: option.splits)
qed

lemma dispatcher_run_bounded:
  "retry_bounded d \<Longrightarrow> retry_bounded (dispatcher_run net d ops)"
  unfolding dispatcher_run_def
  by (induction ops arbitrary: d) (simp_all add: dispatcher_step_bounded)

text \<open>
  C5. In every state the dispatcher reaches from its start, whatever is dispatched and
  whatever the sends return, each task in the retry queue has a retry count below 3, so the
  count of an attempt never exceeds 3. A retry increments the count and schedules the next
  attempt \<open>5 * 2 ^ count\<close> seconds later (the first retry is scheduled 5 seconds after the
  failed send): for a send that fails at second 0 the retries fall due at 5, 15 and 35, that
  is after delays of 5, 10 and 20 seconds, and a retry pass before the due time does nothing.
  When the third retry (the fourth attempt) succeeds, one success and three retries are
  recorded and the queue is empty; when it fails too, the task is counted as failed and is
  gone from the queue.
\<close>

theorem retry_discipline:
  "(\<forall>item \<in> set (retry_queue (dispatcher_run net (init_dispatcher availability) ops)).
      ri_retry_count item < 3)
   \<and> ri_retry_count (reschedule now item) = ri_retry_count item + 1
   \<and> ri_next_retry (reschedule now item) = now + 5 * 2 ^ (ri_retry_count item + 1)
   \<and> (let notif = \<lparr>rule_name = ''large_position'', context_wallet = Some ''0xabcdef0123'',
                     formatted = [(''discord'', ''alert'')]\<rparr>;
           start = init_dispatcher [(''discord'', True)];
           schedule = (\<lambda>d. map (\<lambda>i. (ri_retry_count i, ri_next_retry i)) (retry_queue d));
           succeeded = dispatcher_run (\<lambda>k. k = 3) start
                         [Dispatch 0 notif, RetryPass 5, RetryPass 15, RetryPass 35];
           exhausted = dispatcher_run (\<lambda>k. False) start
                         [Dispatch 0 notif, RetryPass 5, RetryPass 15, RetryPass 35]
       in schedule (dispatcher_run (\<lambda>k. False) start [Dispatch 0 notif]) = [(0, 5)]
          \<and> schedule (dispatcher_run (\<lambda>k. False) start [Dispatch 0 notif, RetryPass 4]) = [(0, 5)]
          \<and> schedule (dispatcher_run (\<lambda>k. False) start [Dispatch 0 notif, RetryPass 5]) = [(1, 15)]
          \<and> schedule (dispatcher_run (\<lambda>k. False) start
                        [Dispatch 0 notif, RetryPass 5, RetryPass 15]) = [(2, 35)]
          \<and> (retry_queue succeeded, notifications_sent succeeded, retries_attempted succeeded,
              length (send_log succeeded)) = ([], 1, 3, 4)
          \<and> (retry_queue exhausted, notifications_sent exhausted, notifications_failed exhausted,
              retries_attempted exhausted, length (send_log exhausted)) = ([], 0, 2, 3, 4))"
proof (intro conjI)
  have "retry_bounded (init_dispatcher availability :: 'a dispatcher)"
    by (simp add: retry_bounded_def init_dispatcher_def)
  from dispatcher_run_bounded [OF this, of net ops]
  show "\<forall>item \<in> set (retry_queue (dispatcher_run net (init_dispatcher availability) ops)).
      ri_retry_count item < 3"
    by (simp add: retry_bounded_def list_all_iff max_retries_def)
next
  show "ri_retry_count (reschedule now item) = ri_retry_count item + 1"
    by (simp add: reschedule_def)
next
  show "ri_next_retry (reschedule now item) = now + 5 * 2 ^ (ri_retry_count item + 1)"
    by (simp add: reschedule_def retry_delay_base_def)
next
  show "let notif = \<lparr>rule_name = ''large_position'', context_wallet = Some ''0xabcdef0123'',
                     formatted = [(''discord'', ''alert'')]\<rparr>;
           start = init_dispatcher [(''discord'', True)];
           schedule = (\<lambda>d. map (\<lambda>i. (ri_retry_count i, ri_next_retry i)) (retry_queue d));
           succeeded = dispatcher_run (\<lambda>k. k = 3) start
                         [Dispatch 0 notif, RetryPass 5, RetryPass 15, RetryPass 35];
           exhausted = dispatcher_run (\<lambda>k. False) start
                         [Dispatch 0 notif, RetryPass 5, RetryPass 15, RetryPass 35]
       in schedule (dispatcher_run (\<lambda>k. False) start [Dispatch 0 notif]) = [(0, 5)]
          \<and> schedule (dispatcher_run (\<lambda>k. False) start [Dispatch 0 notif, RetryPass 4]) = [(0, 5)]
          \<and> schedule (dispatcher_run (\<lambda>k. False) start [Dispatch 0 notif, RetryPass 5]) = [(1, 15)]
          \<and> schedule (dispatcher_run (\<lambda>k. False) start
                        [Dispatch 0 notif, RetryPass 5, RetryPass 15]) = [(2, 35)]
          \<and> (retry_queue succeeded, notifications_sent succeeded, retries_attempted succeeded,
              length (send_log succeeded)) = ([], 1, 3, 4)
          \<and> (retry_queue exhausted, notifications_sent exhausted, notifications_failed exhausted,
              retries_attempted exhausted, length (send_log exhausted)) = ([], 0, 2, 3, 4)"
    by code_simp
qed

theorem retry_discipline_witness:
  "(let d = dispatcher_run (\<lambda>k. False) (init_dispatcher [(''discord'', True)])
              [Dispatch 0 \<lparr>rule_name = ''large_position'', context_wallet = Some ''0xabcdef0123'',
                           formatted = [(''discord'', ''alert'')]\<rparr>,
               RetryPass 5, RetryPass 15]
    in map ri_retry_count (retry_queue d) = [2] \<and> ri_retry_count (hd (retry_queue d)) < 3)"
proof -
  let ?d = "dispatcher_run (\<lambda>k. False) (init_dispatcher [(''discord'', True)])
              [Dispatch 0 \<lparr>rule_name = ''large_position'', context_wallet = Some ''0xabcdef0123'',
                           formatted = [(''discord'', ''alert'')]\<rparr>,
               RetryPass 5, RetryPass 15]"
  have q: "map ri_retry_count (retry_queue ?d) = [2]" by code_simp
  then have "hd (retry_queue ?d) \<in> set (retry_queue ?d)" by (cases "retry_queue ?d") simp_all
  with retry_discipline [of "\<lambda>k. False" "[(''discord'', True)]"
      "[Dispatch 0 \<lparr>rule_name = ''large_position'', context_wallet = Some ''0xabcdef0123'',
                           formatted = [(''discord'', ''alert'')]\<rparr>,
               RetryPass 5, RetryPass 15]"]
  have "ri_retry_count (hd (retry_queue ?d)) < 3" by blast
  with q show ?thesis by (simp add: Let_def)
qed

section \<open>Deferred notifications and the flush loop\<close>












section \<open>The scenario of a large fill\<close>









end
